theory Spec2Isabelle
  imports Complex_Main "HOL-Library.Multiset"
begin

section \<open>PDF to EPUB converter: structuring, rendering, validation, iteration\<close>

text \<open>
  A shallow embedding of \<^verbatim>\<open>src/functions/main.py\<close>: the chapter structuring of stage 3
  (\<^verbatim>\<open>structure_chapters\<close>, \<^verbatim>\<open>_build_chapter_content\<close>, \<^verbatim>\<open>_escape_html\<close>), the
  validation and parameter adjustment of stage 5 (\<^verbatim>\<open>validate_epub\<close>,
  \<^verbatim>\<open>adjust_params\<close>) and the iteration loop of \<^verbatim>\<open>process_epub_conversion\<close>.

  Conventions of the embedding.
  \<^item> Python \<^verbatim>\<open>str\<close> is \<open>string\<close>; a \<open>char\<close> stands for the code point of the same
    number, so the texts covered are those over U+0000 .. U+00FF. The character classes
    below (\<open>is_space\<close>, \<open>is_digit\<close>, \<open>lower\<close>) are Python's on that range.
  \<^item> Python \<^verbatim>\<open>float\<close> is \<open>rat\<close>: every float is a rational number. The products of
    floats that the structuring and the rendering compare sizes with
    (\<^verbatim>\<open>body_size * heading_threshold\<close>, \<^verbatim>\<open>body_size * 1.5\<close>, \<^verbatim>\<open>body_size * 1.2\<close>) are
    rounded by the machine, and a size of one decimal can lie between the exact and the
    rounded product (\<^verbatim>\<open>12.0 * 1.3\<close> is \<^verbatim>\<open>15.600000000000001\<close>). The functions that
    compute such a product therefore take the product as a parameter \<open>fmul\<close>, and the
    statements about them hold for every \<open>fmul\<close>, so for the machine's product too.
    The ratio of the validation and the steps of the adjustment are computed exactly;
    there the exact and the floating-point result agree except within one rounding
    error of a threshold.
  \<^item> Python \<^verbatim>\<open>int\<close> is \<open>int\<close>, or \<open>nat\<close> for counts and page indices that the source
    never lets go below zero.
  \<^item> A dictionary with a fixed set of keys is a record; a key that some path leaves out,
    or that is read with \<^verbatim>\<open>.get(key, default)\<close>, is an \<open>option\<close> field.
  \<^item> An exception is a value of \<open>py_error\<close>, returned as \<open>Inl\<close>.
\<close>

subsection \<open>Strings\<close>

text \<open>\<^verbatim>\<open>str.isspace\<close> on one character: U+0009..U+000D, U+001C..U+0020, U+0085, U+00A0.\<close>

definition is_space :: "char \<Rightarrow> bool" where
  "is_space c = (let n = (of_char c :: nat) in
     (9 \<le> n \<and> n \<le> 13) \<or> (28 \<le> n \<and> n \<le> 32) \<or> n = 133 \<or> n = 160)"

text \<open>The class \<^verbatim>\<open>\d\<close> of \<^verbatim>\<open>re\<close>: the decimal digits.\<close>

definition is_digit :: "char \<Rightarrow> bool" where
  "is_digit c = (let n = (of_char c :: nat) in 48 \<le> n \<and> n \<le> 57)"

text \<open>
  The lower-case mapping that \<^verbatim>\<open>re.IGNORECASE\<close> compares by: A..Z, and the accented
  capitals U+00C0..U+00DE but the multiplication sign U+00D7, move up by 32.
\<close>

definition lower :: "char \<Rightarrow> char" where
  "lower c = (let n = (of_char c :: nat) in
     if (65 \<le> n \<and> n \<le> 90) \<or> (192 \<le> n \<and> n \<le> 222 \<and> n \<noteq> 215) then char_of (n + 32) else c)"

text \<open>\<^verbatim>\<open>s.split()\<close>: the maximal runs of characters that are not white space.\<close>

fun split_from :: "string \<Rightarrow> string \<Rightarrow> string list" where
  "split_from w [] = (if w = [] then [] else [w])"
| "split_from w (c # cs) =
     (if is_space c then (if w = [] then split_from [] cs else w # split_from [] cs)
      else split_from (w @ [c]) cs)"

definition py_split :: "string \<Rightarrow> string list" where
  "py_split s = split_from [] s"

text \<open>\<^verbatim>\<open>s.strip()\<close>: white space removed at both ends.\<close>

definition py_strip :: "string \<Rightarrow> string" where
  "py_strip s = rev (dropWhile is_space (rev (dropWhile is_space s)))"

text \<open>\<^verbatim>\<open>s.split("\n\n")\<close>: the pieces between the occurrences of two line feeds, left to right.\<close>

fun split_blank :: "string \<Rightarrow> string list" where
  "split_blank [] = [[]]"
| "split_blank [c] = [[c]]"
| "split_blank (a # b # cs) =
     (if a = CHR 0x0A \<and> b = CHR 0x0A then [] # split_blank cs
      else (case split_blank (b # cs) of
              [] \<Rightarrow> [[a]]
            | w # ws \<Rightarrow> (a # w) # ws))"

text \<open>\<^verbatim>\<open>sep.join(parts)\<close>.\<close>

fun join :: "string \<Rightarrow> string list \<Rightarrow> string" where
  "join sep [] = []"
| "join sep [p] = p"
| "join sep (p # q # ps) = p @ sep @ join sep (q # ps)"

text \<open>\<^verbatim>\<open>str(n)\<close> for a natural number, as the f-strings format it.\<close>

fun str_nat :: "nat \<Rightarrow> string" where
  "str_nat n =
     (if n < 10 then [''0123456789'' ! n]
      else str_nat (n div 10) @ [''0123456789'' ! (n mod 10)])"

declare str_nat.simps [simp del]

text \<open>\<^verbatim>\<open>s.replace(old, new)\<close> where \<open>old\<close> is a single character.\<close>

definition replace_char :: "char \<Rightarrow> string \<Rightarrow> string \<Rightarrow> string" where
  "replace_char old new s = concat (map (\<lambda>c. if c = old then new else [c]) s)"

subsection \<open>Escaping\<close>

text \<open>
  \<^verbatim>\<open>_escape_html\<close>: four replacements in the source's order, the ampersand first.
  \<open>CHR 0x22\<close> is the double quote.
\<close>

definition escape_html :: "string \<Rightarrow> string" where
  "escape_html t =
     replace_char (CHR 0x22) ''&quot;''
       (replace_char (CHR ''>'') ''&gt;''
         (replace_char (CHR ''<'') ''&lt;''
           (replace_char (CHR ''&'') ''&amp;'' t)))"






subsection \<open>Data model\<close>

datatype py_error = ValueError string | KeyError string | IndexError string

text \<open>
  A text block of a page, as \<^verbatim>\<open>analyze_pdf\<close> stores it: the keys \<^verbatim>\<open>text\<close>, \<^verbatim>\<open>size\<close> and
  \<^verbatim>\<open>bold\<close>. Its keys \<^verbatim>\<open>flags\<close> and \<^verbatim>\<open>bbox\<close> are never read again and are left out.
\<close>

record block =
  block_text :: string
  block_size :: rat
  bold :: bool

record image =
  image_data :: string
  ext :: string
  image_page :: nat
  image_index :: nat

record page =
  page_num :: nat
  blocks :: "block list"
  page_word_count :: nat
  is_scanned :: bool
  page_images :: "image list"

text \<open>
  The analysis of a document. An entry of \<open>toc\<close> is \<open>(level, title, page_num)\<close> with a
  page number that counts from 1. The key \<^verbatim>\<open>total_pages\<close> is \<open>length (pages a)\<close> in the
  source (both are \<^verbatim>\<open>len(doc)\<close>); the structuring reads \<^verbatim>\<open>len(pages)\<close>.
\<close>

record analysis =
  pages :: "page list"
  body_font_size :: rat
  toc :: "(int \<times> string \<times> int) list"
  all_images :: "image list"
  scanned_pages :: "nat list"
  total_words :: nat
  total_pages :: nat

text \<open>
  \<^verbatim>\<open>analyze_pdf\<close> numbers the pages as it appends them, so the page at index \<open>i\<close> has
  \<open>page_num = i\<close>.
\<close>

definition pages_numbered :: "page list \<Rightarrow> bool" where
  "pages_numbered ps = (map page_num ps = [0..<length ps])"

text \<open>The heuristic parameters; each key is read with \<^verbatim>\<open>.get(key, default)\<close>.\<close>

record params =
  heading_threshold :: "rat option"
  chunk_size :: "int option"
  min_chapter_words :: "int option"

definition get_heading_threshold :: "params \<Rightarrow> rat" where
  "get_heading_threshold p = (case heading_threshold p of None \<Rightarrow> 13 / 10 | Some v \<Rightarrow> v)"

definition get_chunk_size :: "params \<Rightarrow> int" where
  "get_chunk_size p = (case chunk_size p of None \<Rightarrow> 15 | Some v \<Rightarrow> v)"

definition get_min_chapter_words :: "params \<Rightarrow> int" where
  "get_min_chapter_words p = (case min_chapter_words p of None \<Rightarrow> 100 | Some v \<Rightarrow> v)"

text \<open>A chapter after \<^verbatim>\<open>_build_chapter_content\<close>; before it, a chapter is \<open>(title, pages)\<close>.\<close>

record chapter_rec =
  title :: string
  chapter_pages :: "nat list"
  content_html :: string
  word_count :: nat
  images :: "image list"

record heading =
  heading_title :: string
  heading_page :: nat
  heading_size :: rat

text \<open>The \<^verbatim>\<open>return\<close> statement of \<^verbatim>\<open>structure_chapters\<close> that produced the result.\<close>

datatype tier = Outline | Heading | FixedChunk

subsection \<open>Rendering: \<^verbatim>\<open>_build_chapter_content\<close>\<close>

text \<open>
  The markup of one text block, by its size relative to the body size. Here and below
  \<open>fmul x y\<close> is the product \<^verbatim>\<open>x * y\<close> of two floats as the machine computes it.
\<close>

definition block_html :: "(rat \<Rightarrow> rat \<Rightarrow> rat) \<Rightarrow> rat \<Rightarrow> block \<Rightarrow> string" where
  "block_html fmul body_size b =
     (if block_size b \<ge> fmul body_size (3 / 2) then ''<h2>'' @ escape_html (block_text b) @ ''</h2>''
      else if block_size b \<ge> fmul body_size (6 / 5) then ''<h3>'' @ escape_html (block_text b) @ ''</h3>''
      else if bold b then ''<p><strong>'' @ escape_html (block_text b) @ ''</strong></p>''
      else ''<p>'' @ escape_html (block_text b) @ ''</p>'')"

text \<open>The paragraphs of an OCR text: split at blank lines, stripped, the empty ones dropped.\<close>

definition ocr_paragraphs :: "string \<Rightarrow> string list" where
  "ocr_paragraphs ocr_text = filter (\<lambda>p. p \<noteq> []) (map py_strip (split_blank ocr_text))"

definition paragraph_html :: "string \<Rightarrow> string" where
  "paragraph_html p = ''<p>'' @ escape_html p @ ''</p>''"

text \<open>
  One turn of the loop over a chapter's pages: the markup parts, the words and the
  images that the page adds. A page number past the end adds nothing. A scanned page
  with an entry in the OCR map is rendered from that text alone.
\<close>

definition page_parts :: "(rat \<Rightarrow> rat \<Rightarrow> rat) \<Rightarrow> page list \<Rightarrow> (nat \<rightharpoonup> string) \<Rightarrow> rat \<Rightarrow> nat
    \<Rightarrow> string list \<times> nat \<times> image list" where
  "page_parts fmul ps ocr_results body_size n =
     (if n \<ge> length ps then ([], 0, [])
      else
        let page_data = ps ! n in
        (case (if is_scanned page_data then ocr_results n else None) of
           Some ocr_text \<Rightarrow>
             (if ocr_text \<noteq> [] then
                (map paragraph_html (ocr_paragraphs ocr_text),
                 sum_list (map (\<lambda>p. length (py_split p)) (ocr_paragraphs ocr_text)),
                 page_images page_data)
              else ([], 0, page_images page_data))
         | None \<Rightarrow>
             (map (block_html fmul body_size) (blocks page_data),
              sum_list (map (\<lambda>b. length (py_split (block_text b))) (blocks page_data)),
              page_images page_data)))"

definition build_chapter :: "(rat \<Rightarrow> rat \<Rightarrow> rat) \<Rightarrow> page list \<Rightarrow> (nat \<rightharpoonup> string) \<Rightarrow> rat
    \<Rightarrow> string \<times> nat list \<Rightarrow> chapter_rec" where
  "build_chapter fmul ps ocr_results body_size c =
     (let parts = map (page_parts fmul ps ocr_results body_size) (snd c) in
      \<lparr> title = fst c,
        chapter_pages = snd c,
        content_html = join [CHR 0x0A] (concat (map fst parts)),
        word_count = sum_list (map (\<lambda>r. fst (snd r)) parts),
        images = concat (map (\<lambda>r. snd (snd r)) parts) \<rparr>)"

definition build_chapter_content :: "(rat \<Rightarrow> rat \<Rightarrow> rat) \<Rightarrow> (string \<times> nat list) list \<Rightarrow> page list
    \<Rightarrow> (nat \<rightharpoonup> string) \<Rightarrow> analysis \<Rightarrow> chapter_rec list" where
  "build_chapter_content fmul chapters ps ocr_results a =
     map (build_chapter fmul ps ocr_results (body_font_size a)) chapters"


subsection \<open>The chapter document of \<^verbatim>\<open>build_epub\<close>\<close>

text \<open>
  The file name of the image with the running number \<open>counter\<close>, the markup of a
  chapter's image references, and the document of a chapter, whose fixed text is cut
  into three constants: the title is escaped in the \<^verbatim>\<open>title\<close> and the \<^verbatim>\<open>h1\<close> element,
  the content is the markup that the rendering made.
  \<open>CHR 0x22\<close> is the double quote and \<open>CHR 0x0A\<close> the line feed.
\<close>

definition image_ref :: "nat \<Rightarrow> image \<Rightarrow> string" where
  "image_ref counter img = ''images/img_'' @ str_nat counter @ ''.'' @ ext img"






subsection \<open>Structuring: \<^verbatim>\<open>structure_chapters\<close>\<close>

paragraph \<open>Strategy 1: the embedded outline\<close>

text \<open>The entries of level 1 and 2, in the outline's own order, with 0-indexed start pages.\<close>

definition outline_boundaries :: "(int \<times> string \<times> int) list \<Rightarrow> (string \<times> int) list" where
  "outline_boundaries entries =
     map (\<lambda>(level, t, page_num). (t, page_num - 1))
       (filter (\<lambda>(level, t, page_num). level \<le> 2) entries)"

text \<open>
  The loop over the boundaries; \<open>n\<close> is \<^verbatim>\<open>len(pages)\<close>. A chapter runs from its start page
  to the start page of the next boundary, both clamped to the document, and is kept when
  it has a page. \<^verbatim>\<open>range(max(0, start), min(end, n))\<close> has a lower end that is not negative,
  so it is \<open>[nat (max 0 start)..<nat (min end n)]\<close>, empty when the upper end is negative.
\<close>

fun outline_chapters :: "(string \<times> int) list \<Rightarrow> nat \<Rightarrow> (string \<times> nat list) list" where
  "outline_chapters [] n = []"
| "outline_chapters ((t, start) # bs) n =
     (let end = (case bs of [] \<Rightarrow> int n | (_, next_start) # _ \<Rightarrow> next_start);
          chapter_pages = [nat (max 0 start)..<nat (min end (int n))]
      in (if chapter_pages \<noteq> [] then [(t, chapter_pages)] else [])
         @ outline_chapters bs n)"

text \<open>
  The front matter, for a list of chapters that is not empty: the pages before the first
  page of the first chapter, under the title \<^verbatim>\<open>Portada\<close>.
\<close>

definition add_front_matter :: "(string \<times> nat list) list \<Rightarrow> py_error + (string \<times> nat list) list" where
  "add_front_matter chapters =
     (case chapters of
        [] \<Rightarrow> Inl (IndexError ''list index out of range'')
      | (t, ps) # _ \<Rightarrow>
          (case ps of
             [] \<Rightarrow> Inl (IndexError ''list index out of range'')
           | first # _ \<Rightarrow>
               if first > 0 \<and> [0..<first] \<noteq> [] then Inr ((''Portada'', [0..<first]) # chapters)
               else Inr chapters))"

definition tier1_chapters :: "analysis \<Rightarrow> (string \<times> nat list) list" where
  "tier1_chapters a =
     (if length (toc a) \<ge> 2
      then outline_chapters (outline_boundaries (toc a)) (length (pages a))
      else [])"

paragraph \<open>Strategy 2: heading detection\<close>

text \<open>
  The three patterns of the chapter-likeness test, matched at the start of the stripped
  text. The character classes of the first pattern are written out as alternatives
  (\<open>CHR 0xED\<close> and \<open>CHR 0xF3\<close> are the accented i and o).
\<close>

definition chapter_keywords :: "string list" where
  "chapter_keywords =
     [''cap'' @ [CHR 0xED] @ ''tulo'', ''capitulo'', ''chapter'', ''parte'', ''part'',
      ''seccion'', ''secci'' @ [CHR 0xF3] @ ''n'', ''section'']"

definition starts_with_nocase :: "string \<Rightarrow> string \<Rightarrow> bool" where
  "starts_with_nocase p s = (map lower (take (length p) s) = map lower p)"

definition keyword_match :: "string \<Rightarrow> bool" where
  "keyword_match t =
     list_ex (\<lambda>k. starts_with_nocase k t \<and>
                  (case drop (length k) t of [] \<Rightarrow> False | c # _ \<Rightarrow> is_space c)) chapter_keywords"

definition is_separator :: "char \<Rightarrow> bool" where
  "is_separator c = (c = CHR ''.'' \<or> c = CHR '')'' \<or> c = CHR ''-'' \<or> is_space c)"

definition numeral_match :: "string \<Rightarrow> bool" where
  "numeral_match t =
     (takeWhile is_digit t \<noteq> [] \<and>
      (case dropWhile is_digit t of [] \<Rightarrow> False | c # _ \<Rightarrow> is_separator c))"

definition is_roman :: "char \<Rightarrow> bool" where
  "is_roman c = (c \<in> set ''IVXLCDM'')"

definition roman_match :: "string \<Rightarrow> bool" where
  "roman_match t =
     (takeWhile is_roman t \<noteq> [] \<and>
      (case dropWhile is_roman t of [] \<Rightarrow> False | c # _ \<Rightarrow> is_separator c))"

definition is_chapter_like :: "(rat \<Rightarrow> rat \<Rightarrow> rat) \<Rightarrow> rat \<Rightarrow> block \<Rightarrow> bool" where
  "is_chapter_like fmul body_size b =
     (let t = py_strip (block_text b) in
      keyword_match t \<or> numeral_match t \<or> roman_match t
        \<or> block_size b \<ge> fmul body_size (3 / 2))"

text \<open>The two nested conditions under which a block is appended to \<^verbatim>\<open>detected_headings\<close>.\<close>

definition heading_candidate :: "(rat \<Rightarrow> rat \<Rightarrow> rat) \<Rightarrow> rat \<Rightarrow> rat \<Rightarrow> block \<Rightarrow> bool" where
  "heading_candidate fmul body_size heading_min_size b =
     ((block_size b \<ge> heading_min_size \<and> bold b
        \<and> length (py_split (block_text b)) \<le> 12 \<and> length (block_text b) > 2)
      \<and> (is_chapter_like fmul body_size b \<or> block_size b \<ge> heading_min_size))"

definition page_headings :: "(rat \<Rightarrow> rat \<Rightarrow> rat) \<Rightarrow> rat \<Rightarrow> rat \<Rightarrow> page \<Rightarrow> heading list" where
  "page_headings fmul body_size heading_min_size page_data =
     (if is_scanned page_data then []
      else map (\<lambda>b. \<lparr> heading_title = py_strip (block_text b),
                       heading_page = page_num page_data,
                       heading_size = block_size b \<rparr>)
             (filter (heading_candidate fmul body_size heading_min_size) (blocks page_data)))"

definition detect_headings :: "(rat \<Rightarrow> rat \<Rightarrow> rat) \<Rightarrow> page list \<Rightarrow> rat \<Rightarrow> rat \<Rightarrow> heading list" where
  "detect_headings fmul ps body_size heading_min_size =
     concat (map (page_headings fmul body_size heading_min_size) ps)"

text \<open>
  The dictionary \<^verbatim>\<open>seen_pages\<close>, as the list of its items in insertion order: a heading
  enters under its page, or replaces a smaller one that is there.
\<close>

definition keep_largest :: "(nat \<times> heading) list \<Rightarrow> heading \<Rightarrow> (nat \<times> heading) list" where
  "keep_largest seen_pages h =
     (case map_of seen_pages (heading_page h) of
        None \<Rightarrow> seen_pages @ [(heading_page h, h)]
      | Some old \<Rightarrow>
          if heading_size h > heading_size old
          then map (\<lambda>(k, v). if k = heading_page h then (k, h) else (k, v)) seen_pages
          else seen_pages)"

definition sorted_headings :: "heading list \<Rightarrow> heading list" where
  "sorted_headings detected = sort_key heading_page (map snd (foldl keep_largest [] detected))"

fun heading_chapters :: "heading list \<Rightarrow> nat \<Rightarrow> (string \<times> nat list) list" where
  "heading_chapters [] n = []"
| "heading_chapters (h # hs) n =
     (let end = (case hs of [] \<Rightarrow> n | next_heading # _ \<Rightarrow> heading_page next_heading);
          chapter_pages = [heading_page h..<end]
      in (if chapter_pages \<noteq> [] then [(heading_title h, chapter_pages)] else [])
         @ heading_chapters hs n)"

text \<open>
  Strategy 2 as a whole; \<^verbatim>\<open>heading_min_size\<close> is the machine's product of the body size
  and the threshold.
\<close>

definition tier2_chapters :: "(rat \<Rightarrow> rat \<Rightarrow> rat) \<Rightarrow> analysis \<Rightarrow> rat \<Rightarrow> (string \<times> nat list) list" where
  "tier2_chapters fmul a threshold =
     (let detected_headings =
            detect_headings fmul (pages a) (body_font_size a) (fmul (body_font_size a) threshold)
      in if length detected_headings \<ge> 2
         then heading_chapters (sorted_headings detected_headings) (length (pages a))
         else [])"

paragraph \<open>Strategy 3: chunks of pages\<close>

text \<open>
  The loop \<^verbatim>\<open>for i in range(0, total, chunk_size)\<close> from index \<open>i\<close> on, for a step that
  is not zero; \<open>n\<close> is \<^verbatim>\<open>total\<close> and \<open>k\<close> is the number of chapters made so far. A negative step is passed as
  0 and gives the empty range, as in Python.
\<close>

function fixed_chunks :: "nat \<Rightarrow> nat \<Rightarrow> nat \<Rightarrow> nat \<Rightarrow> (string \<times> nat list) list" where
  "fixed_chunks i n step k =
     (if 0 < step \<and> i < n
      then (''Secci'' @ [CHR 0xF3] @ ''n '' @ str_nat (k + 1), [i..<min (i + step) n])
             # fixed_chunks (i + step) n step (k + 1)
      else [])"
  by pat_completeness auto
termination
  by (relation "measure (\<lambda>(i, n, step, k). n - i)") auto

declare fixed_chunks.simps [simp del]

paragraph \<open>The three strategies in order\<close>

text \<open>
  The chapters before rendering, with the strategy that returned them. Strategy 1
  returns when it made a chapter, strategy 2 likewise; the list of chapters is therefore
  empty whenever the next strategy starts. \<^verbatim>\<open>range\<close> raises \<^verbatim>\<open>ValueError\<close> on a step of 0.
\<close>

definition structure_spans :: "(rat \<Rightarrow> rat \<Rightarrow> rat) \<Rightarrow> analysis \<Rightarrow> params \<Rightarrow> py_error + (tier \<times> (string \<times> nat list) list)" where
  "structure_spans fmul a ps =
     (let heading_threshold = get_heading_threshold ps;
          chunk_size = get_chunk_size ps;
          min_chapter_words = get_min_chapter_words ps
      in if tier1_chapters a \<noteq> []
         then map_sum id (Pair Outline) (add_front_matter (tier1_chapters a))
         else if tier2_chapters fmul a heading_threshold \<noteq> []
         then map_sum id (Pair Heading) (add_front_matter (tier2_chapters fmul a heading_threshold))
         else if chunk_size = 0 then Inl (ValueError ''range() arg 3 must not be zero'')
         else Inr (FixedChunk, fixed_chunks 0 (length (pages a)) (nat chunk_size) 0))"

definition structure_chapters_tagged :: "(rat \<Rightarrow> rat \<Rightarrow> rat) \<Rightarrow> analysis \<Rightarrow> (nat \<rightharpoonup> string) \<Rightarrow> params
    \<Rightarrow> py_error + (tier \<times> chapter_rec list)" where
  "structure_chapters_tagged fmul a ocr_results ps =
     map_sum id (\<lambda>(t, chapters). (t, build_chapter_content fmul chapters (pages a) ocr_results a))
       (structure_spans fmul a ps)"

definition structure_chapters :: "(rat \<Rightarrow> rat \<Rightarrow> rat) \<Rightarrow> analysis \<Rightarrow> (nat \<rightharpoonup> string) \<Rightarrow> params
    \<Rightarrow> py_error + chapter_rec list" where
  "structure_chapters fmul a ocr_results ps = map_sum id snd (structure_chapters_tagged fmul a ocr_results ps)"

subsection \<open>Validation: \<^verbatim>\<open>validate_epub\<close>\<close>

text \<open>
  What reading the publication back gives: an exception, or the items of the book, each
  with its type number and its decoded content. Type 9 is an XHTML document.
\<close>

record item =
  item_type :: nat
  item_content :: string

datatype readback = ReadFailure string | Items "item list"

text \<open>
  \<^verbatim>\<open>re.sub(r'<[^>]+>', ' ', content)\<close>: a \<open><\<close>, at least one character that is not
  \<open>>\<close>, and the next \<open>>\<close> become one blank, from left to right.
\<close>

function strip_tags :: "string \<Rightarrow> string" where
  "strip_tags [] = []"
| "strip_tags (c # cs) =
     (if c = CHR ''<'' \<and> takeWhile (\<lambda>x. x \<noteq> CHR ''>'') cs \<noteq> []
           \<and> dropWhile (\<lambda>x. x \<noteq> CHR ''>'') cs \<noteq> []
      then CHR '' '' # strip_tags (tl (dropWhile (\<lambda>x. x \<noteq> CHR ''>'') cs))
      else c # strip_tags cs)"
  by pat_completeness auto
termination
  by (relation "measure length") (auto intro: le_imp_less_Suc order_trans [OF diff_le_self length_dropWhile_le])

definition epub_word_count :: "item list \<Rightarrow> nat" where
  "epub_word_count items =
     sum_list (map (\<lambda>it. length (py_split (strip_tags (item_content it))))
                 (filter (\<lambda>it. item_type it = 9) items))"

text \<open>
  The validation report. The keys are those of the two dictionaries that
  \<^verbatim>\<open>validate_epub\<close> returns; a key that a dictionary does not have is \<open>None\<close>.
\<close>

record report =
  passed :: "bool option"
  error :: "string option"
  word_ratio :: "rat option"
  source_words :: "nat option"
  epub_words :: "nat option"
  report_chapters :: "nat option"
  report_images :: "nat option"
  empty_chapters :: "bool option"
  failure_mode :: "string option"

text \<open>
  \<^verbatim>\<open>round(x, 3)\<close>: the nearest multiple of 1/1000. A value exactly half way goes to the
  even neighbour here; the floating-point value of the source is never exactly half way,
  and goes to the neighbour that is nearer to it.
\<close>

definition py_round3 :: "rat \<Rightarrow> rat" where
  "py_round3 x =
     (let y = x * 1000; n = \<lfloor>y\<rfloor>; f = y - of_int n
      in of_int (if f < 1 / 2 then n else if f > 1 / 2 then n + 1
                 else if even n then n else n + 1) / 1000)"

text \<open>The ratio before it is rounded: the local variable \<^verbatim>\<open>word_ratio\<close>.\<close>

definition raw_word_ratio :: "nat \<Rightarrow> nat \<Rightarrow> rat" where
  "raw_word_ratio epub_wc src_words =
     (if src_words > 0 then min (of_nat epub_wc / of_nat src_words) 1
      else if epub_wc = 0 then 1 else 1 / 2)"

definition validate_epub :: "readback \<Rightarrow> analysis \<Rightarrow> nat \<Rightarrow> nat \<Rightarrow> report" where
  "validate_epub rb source_analysis chapter_count_expected image_count_expected =
     (case rb of
        ReadFailure e \<Rightarrow>
          \<lparr> passed = Some False,
            error = Some (''Could not read EPUB for validation: '' @ e),
            word_ratio = Some 0,
            source_words = None,
            epub_words = None,
            report_chapters = Some chapter_count_expected,
            report_images = Some image_count_expected,
            empty_chapters = None,
            failure_mode = None \<rparr>
      | Items items \<Rightarrow>
          let wc = epub_word_count items;
              src_words = total_words source_analysis;
              ratio = raw_word_ratio wc src_words;
              ok = (ratio \<ge> 9 / 10)
          in \<lparr> passed = Some ok,
               error = None,
               word_ratio = Some (py_round3 ratio),
               source_words = Some src_words,
               epub_words = Some wc,
               report_chapters = Some chapter_count_expected,
               report_images = Some image_count_expected,
               empty_chapters = Some False,
               failure_mode =
                 (if \<not> ok then
                    (if ratio < 1 / 2 then Some ''severe_word_loss''
                     else if ratio < 9 / 10 then Some ''moderate_word_loss''
                     else Some ''minor'')
                  else None) \<rparr>)"

subsection \<open>Adjustment: \<^verbatim>\<open>adjust_params\<close>\<close>

definition adjust_params :: "params \<Rightarrow> report \<Rightarrow> params" where
  "adjust_params current_params validation_report =
     (let failure = (case failure_mode validation_report of None \<Rightarrow> ''minor'' | Some f \<Rightarrow> f)
      in if failure = ''severe_word_loss'' then
           current_params
             \<lparr> heading_threshold := Some (max (11 / 10) (get_heading_threshold current_params - 15 / 100)),
               chunk_size := Some (min 30 (get_chunk_size current_params + 10)),
               min_chapter_words := Some (max 25 (get_min_chapter_words current_params - 50)) \<rparr>
         else if failure = ''moderate_word_loss'' then
           current_params
             \<lparr> heading_threshold := Some (max (11 / 10) (get_heading_threshold current_params - 1 / 10)),
               chunk_size := Some (min 25 (get_chunk_size current_params + 5)),
               min_chapter_words := Some (max 50 (get_min_chapter_words current_params - 25)) \<rparr>
         else current_params)"

subsection \<open>The iteration loop of \<^verbatim>\<open>process_epub_conversion\<close>\<close>

definition MAX_ITERATIONS :: nat where
  "MAX_ITERATIONS = 3"

definition initial_params :: params where
  "initial_params =
     \<lparr> heading_threshold = Some (13 / 10), chunk_size = Some 15, min_chapter_words = Some 100 \<rparr>"

text \<open>What \<^verbatim>\<open>build_epub\<close> returns: the number of chapters and the number of images.\<close>

definition build_epub_counts :: "chapter_rec list \<Rightarrow> nat \<times> nat" where
  "build_epub_counts chapters = (length chapters, sum_list (map (\<lambda>c. length (images c)) chapters))"

text \<open>
  How the loop ends: by its \<^verbatim>\<open>break\<close> (\<open>Passed\<close>) or by the end of its range
  (\<open>Exhausted\<close>). \<open>history\<close> lists the reports of the attempts in order; the source does
  not keep it, it is there to state what the loop did.
\<close>

datatype loop_end = Passed | Exhausted

record loop_result =
  end_state :: loop_end
  best_result :: "report option"
  final_params :: params
  history :: "report list"

text \<open>
  The loop \<^verbatim>\<open>for iteration in range(1, MAX_ITERATIONS + 1)\<close> over the rest of its range.
  \<open>env\<close> gives, for an attempt, what reading back the publication written in that attempt
  returns; writing it is taken to succeed. The two \<^verbatim>\<open>print\<close> calls that subscript
  \<^verbatim>\<open>params\<close> and \<^verbatim>\<open>report\<close> raise \<^verbatim>\<open>KeyError\<close> on a missing key, as does
  \<^verbatim>\<open>report["passed"]\<close>.
\<close>

fun iterations :: "(rat \<Rightarrow> rat \<Rightarrow> rat) \<Rightarrow> (nat \<Rightarrow> readback) \<Rightarrow> analysis \<Rightarrow> (nat \<rightharpoonup> string) \<Rightarrow> nat list
    \<Rightarrow> params \<Rightarrow> report option \<Rightarrow> report list \<Rightarrow> py_error + loop_result" where
  "iterations fmul env a ocr_results [] ps best hist =
     Inr \<lparr> end_state = Exhausted, best_result = best, final_params = ps, history = hist \<rparr>"
| "iterations fmul env a ocr_results (iteration # rest) ps best hist =
     (if heading_threshold ps = None then Inl (KeyError ''heading_threshold'')
      else if chunk_size ps = None then Inl (KeyError ''chunk_size'')
      else
        (case structure_chapters fmul a ocr_results ps of
           Inl e \<Rightarrow> Inl e
         | Inr chapters \<Rightarrow>
             let counts = build_epub_counts chapters;
                 rep = validate_epub (env iteration) a (fst counts) (snd counts)
             in if word_ratio rep = None then Inl (KeyError ''word_ratio'')
                else
                  (case passed rep of
                     None \<Rightarrow> Inl (KeyError ''passed'')
                   | Some True \<Rightarrow>
                       Inr \<lparr> end_state = Passed, best_result = Some rep, final_params = ps,
                             history = hist @ [rep] \<rparr>
                   | Some False \<Rightarrow>
                       if iteration < MAX_ITERATIONS
                       then iterations fmul env a ocr_results rest (adjust_params ps rep) (Some rep)
                              (hist @ [rep])
                       else iterations fmul env a ocr_results rest ps (Some rep) (hist @ [rep]))))"

definition iteration_loop :: "(rat \<Rightarrow> rat \<Rightarrow> rat) \<Rightarrow> (nat \<Rightarrow> readback) \<Rightarrow> analysis \<Rightarrow> (nat \<rightharpoonup> string)
    \<Rightarrow> py_error + loop_result" where
  "iteration_loop fmul env a ocr_results =
     iterations fmul env a ocr_results [1..<MAX_ITERATIONS + 1] initial_params None []"

text \<open>
  The quality summary of the final update. A report is a dictionary that is not empty,
  so \<^verbatim>\<open>best_result[key] if best_result else 0\<close> subscripts it; the keys are read in the
  order of the dictionary display.
\<close>

record quality =
  wordRatio :: rat
  sourceWords :: nat
  epubWords :: nat
  quality_chapters :: nat
  quality_images :: nat
  quality_passed :: bool

definition quality_report :: "report option \<Rightarrow> py_error + quality" where
  "quality_report best =
     (case best of
        None \<Rightarrow>
          Inr \<lparr> wordRatio = 0, sourceWords = 0, epubWords = 0, quality_chapters = 0,
                quality_images = 0, quality_passed = False \<rparr>
      | Some r \<Rightarrow>
          (case word_ratio r of None \<Rightarrow> Inl (KeyError ''word_ratio'') | Some wr \<Rightarrow>
          (case source_words r of None \<Rightarrow> Inl (KeyError ''source_words'') | Some sw \<Rightarrow>
          (case epub_words r of None \<Rightarrow> Inl (KeyError ''epub_words'') | Some ew \<Rightarrow>
          (case report_chapters r of None \<Rightarrow> Inl (KeyError ''chapters'') | Some ch \<Rightarrow>
          (case report_images r of None \<Rightarrow> Inl (KeyError ''images'') | Some im \<Rightarrow>
          (case passed r of None \<Rightarrow> Inl (KeyError ''passed'') | Some pa \<Rightarrow>
             Inr \<lparr> wordRatio = wr, sourceWords = sw, epubWords = ew, quality_chapters = ch,
                   quality_images = im, quality_passed = pa \<rparr>)))))))"

text \<open>
  The status record at the end of the invocation, from the loop on: \<^verbatim>\<open>completed\<close> with the
  quality summary, or \<^verbatim>\<open>error\<close> when an exception reached the handler at the top.
\<close>

datatype job_status = Completed quality | Failed py_error

definition conversion_status :: "(rat \<Rightarrow> rat \<Rightarrow> rat) \<Rightarrow> (nat \<Rightarrow> readback) \<Rightarrow> analysis \<Rightarrow> (nat \<rightharpoonup> string) \<Rightarrow> job_status" where
  "conversion_status fmul env a ocr_results =
     (case iteration_loop fmul env a ocr_results of
        Inl e \<Rightarrow> Failed e
      | Inr res \<Rightarrow>
          (case quality_report (best_result res) of
             Inl e \<Rightarrow> Failed e
           | Inr q \<Rightarrow> Completed q))"

subsection \<open>Predicates and documents used in the statements\<close>

text \<open>
  Parameters with which the loop can run: the two keys that it prints are there, and the
  chunk size is positive.
\<close>

definition usable_params :: "params \<Rightarrow> bool" where
  "usable_params ps =
     (heading_threshold ps \<noteq> None \<and> (case chunk_size ps of None \<Rightarrow> False | Some k \<Rightarrow> 0 < k))"

text \<open>The report \<open>r\<close> is what validating the publication of attempt \<open>it\<close> returned.\<close>

definition attempt_of :: "(nat \<Rightarrow> readback) \<Rightarrow> analysis \<Rightarrow> report \<Rightarrow> nat \<Rightarrow> bool" where
  "attempt_of env a r it = (\<exists>c n. r = validate_epub (env it) a c n)"

text \<open>
  The page lists of the chapters cover the pages \<open>0..<n\<close> exactly: no chapter is empty,
  and the lists one after the other are the pages in order, each page once.
\<close>

definition exact_cover :: "nat list list \<Rightarrow> nat \<Rightarrow> bool" where
  "exact_cover pss n = (list_all (\<lambda>ps. ps \<noteq> []) pss \<and> concat pss = [0..<n])"

text \<open>
  Small documents: a page of text blocks that is not scanned, and a document of such
  pages with body size 12 and a given outline.
\<close>

definition plain_page :: "nat \<Rightarrow> block list \<Rightarrow> page" where
  "plain_page i bs =
     \<lparr> page_num = i, blocks = bs,
       page_word_count = sum_list (map (\<lambda>b. length (py_split (block_text b))) bs),
       is_scanned = False, page_images = [] \<rparr>"

definition document :: "page list \<Rightarrow> (int \<times> string \<times> int) list \<Rightarrow> analysis" where
  "document ps entries =
     \<lparr> pages = ps, body_font_size = 12, toc = entries, all_images = [], scanned_pages = [],
       total_words = sum_list (map page_word_count ps), total_pages = length ps \<rparr>"

text \<open>
  The product without rounding, for the concrete documents below: their sizes are far
  from the thresholds, so the comparisons come out as with the machine's product.
\<close>

definition exact_mul :: "rat \<Rightarrow> rat \<Rightarrow> rat" where
  "exact_mul x y = x * y"

definition one_word_item :: item where
  "one_word_item = \<lparr> item_type = 9, item_content = ''w'' \<rparr>"

text \<open>
  The items of \<^verbatim>\<open>seen_pages\<close> are in order for a set \<open>S\<close> of headings: no page is a key
  twice, and each key holds a heading of \<open>S\<close> that is on that page.
\<close>

definition seen_ok :: "heading set \<Rightarrow> (nat \<times> heading) list \<Rightarrow> bool" where
  "seen_ok S seen =
     (distinct (map fst seen) \<and> (\<forall>(k, h) \<in> set seen. heading_page h = k \<and> h \<in> S))"

section \<open>Properties\<close>

subsection \<open>Escaping\<close>





















subsection \<open>Heading candidates\<close>

lemma heading_candidate_conv:
  "heading_candidate fmul body_size heading_min_size =
     (\<lambda>b. block_size b \<ge> heading_min_size \<and> bold b
           \<and> length (py_split (block_text b)) \<le> 12 \<and> length (block_text b) > 2)"
  by (auto simp: heading_candidate_def fun_eq_iff)

text \<open>
  Claim C3, as the code has it. The inner condition of the source is
  \<^verbatim>\<open>is_chapter_like or block["size"] >= heading_min_size\<close>, and its second disjunct is
  already a conjunct of the outer condition. So a block of a page that is not scanned
  is collected as a heading candidate iff its size is at least \<open>heading_min_size\<close>, it is
  bold, and its text has at most 12 words and more than 2 characters; the
  chapter-likeness test has no influence. A scanned page gives no candidate.
\<close>

theorem heading_candidate_size_bold_length:
  "(heading_candidate fmul body_size heading_min_size b \<longleftrightarrow>
      block_size b \<ge> heading_min_size \<and> bold b
      \<and> length (py_split (block_text b)) \<le> 12 \<and> length (block_text b) > 2)
   \<and> page_headings fmul body_size heading_min_size pd =
       (if is_scanned pd then []
        else map (\<lambda>b. \<lparr> heading_title = py_strip (block_text b), heading_page = page_num pd,
                         heading_size = block_size b \<rparr>)
               (filter (\<lambda>b. block_size b \<ge> heading_min_size \<and> bold b
                            \<and> length (py_split (block_text b)) \<le> 12
                            \<and> length (block_text b) > 2) (blocks pd)))"
  unfolding page_headings_def heading_candidate_conv by simp

theorem heading_candidate_size_bold_length_witness:
  "page_headings exact_mul 12 (12 * (13 / 10))
     (plain_page 4 [\<lparr> block_text = ''Hello world'', block_size = 16, bold = True \<rparr>,
                    \<lparr> block_text = ''Hello world'', block_size = 15, bold = True \<rparr>])
   = [\<lparr> heading_title = ''Hello world'', heading_page = 4, heading_size = 16 \<rparr>]"
  using heading_candidate_size_bold_length [where fmul = exact_mul and body_size = 12
     and heading_min_size = "12 * (13 / 10)" and pd =
     "plain_page 4 [\<lparr> block_text = ''Hello world'', block_size = 16, bold = True \<rparr>,
                    \<lparr> block_text = ''Hello world'', block_size = 15, bold = True \<rparr>]"]
  by (simp add: plain_page_def py_split_def py_strip_def is_space_def)

text \<open>
  The claim as stated fails: the bold block \<^verbatim>\<open>Hello world\<close> of size 16 in a document with
  body size 12 and threshold 1.3 passes no chapter-likeness test (no keyword, no ordinal
  prefix, smaller than 18) and is a heading candidate all the same.
\<close>

theorem heading_without_chapter_likeness:
  "heading_candidate exact_mul 12 (12 * (13 / 10))
     \<lparr> block_text = ''Hello world'', block_size = 16, bold = True \<rparr>
   \<and> \<not> is_chapter_like exact_mul 12 \<lparr> block_text = ''Hello world'', block_size = 16, bold = True \<rparr>"
  by (simp add: heading_candidate_def is_chapter_like_def py_split_def py_strip_def is_space_def
      keyword_match_def chapter_keywords_def starts_with_nocase_def lower_def char_of_def
      bit_Suc_0_iff numeral_match_def roman_match_def is_digit_def is_roman_def
      is_separator_def exact_mul_def)

subsection \<open>Parameter adjustment\<close>

text \<open>
  Claim C5. \<^verbatim>\<open>adjust_params\<close> depends on the report through its failure mode only. For
  \<^verbatim>\<open>severe_word_loss\<close> it lowers the heading threshold by 0.15 but not below 1.1, raises
  the chunk size by 10 but not above 30, and lowers the minimum of chapter words by 50
  but not below 25; for \<^verbatim>\<open>moderate_word_loss\<close> the steps are 0.10, 5 and 25 and the
  bounds 1.1, 25 and 50; for every other failure mode, and for none, the parameters are
  returned as they are. A parameter that is absent counts with its default.
\<close>

theorem adjust_params_mapping:
  "(failure_mode r = Some ''severe_word_loss'' \<longrightarrow>
      adjust_params p r =
        \<lparr> heading_threshold = Some (max (11 / 10) (get_heading_threshold p - 15 / 100)),
          chunk_size = Some (min 30 (get_chunk_size p + 10)),
          min_chapter_words = Some (max 25 (get_min_chapter_words p - 50)) \<rparr>)
   \<and> (failure_mode r = Some ''moderate_word_loss'' \<longrightarrow>
      adjust_params p r =
        \<lparr> heading_threshold = Some (max (11 / 10) (get_heading_threshold p - 10 / 100)),
          chunk_size = Some (min 25 (get_chunk_size p + 5)),
          min_chapter_words = Some (max 50 (get_min_chapter_words p - 25)) \<rparr>)
   \<and> (failure_mode r \<noteq> Some ''severe_word_loss''
        \<and> failure_mode r \<noteq> Some ''moderate_word_loss'' \<longrightarrow>
      adjust_params p r = p)
   \<and> (failure_mode r = failure_mode r' \<longrightarrow> adjust_params p r = adjust_params p r')"
  by (cases "failure_mode r") (auto simp: adjust_params_def Let_def)

theorem adjust_params_mapping_witness:
  "adjust_params initial_params
     \<lparr> passed = Some False, error = None, word_ratio = Some (85 / 100),
       source_words = Some 1000, epub_words = Some 850, report_chapters = Some 3,
       report_images = Some 0, empty_chapters = Some False,
       failure_mode = Some ''moderate_word_loss'' \<rparr>
   = \<lparr> heading_threshold = Some (12 / 10), chunk_size = Some 20, min_chapter_words = Some 75 \<rparr>
   \<and> adjust_params initial_params
     \<lparr> passed = Some False, error = None, word_ratio = Some (85 / 100),
       source_words = Some 1000, epub_words = Some 850, report_chapters = Some 3,
       report_images = Some 0, empty_chapters = Some False,
       failure_mode = Some ''unknown'' \<rparr>
   = initial_params"
  using adjust_params_mapping [where p = initial_params and r =
     "\<lparr> passed = Some False, error = None, word_ratio = Some (85 / 100),
       source_words = Some 1000, epub_words = Some 850, report_chapters = Some 3,
       report_images = Some 0, empty_chapters = Some False,
       failure_mode = Some ''moderate_word_loss'' \<rparr>"]
    adjust_params_mapping [where p = initial_params and r =
     "\<lparr> passed = Some False, error = None, word_ratio = Some (85 / 100),
       source_words = Some 1000, epub_words = Some 850, report_chapters = Some 3,
       report_images = Some 0, empty_chapters = Some False,
       failure_mode = Some ''unknown'' \<rparr>"]
  by (simp add: initial_params_def get_heading_threshold_def get_chunk_size_def
      get_min_chapter_words_def)

subsection \<open>The unused parameter\<close>

text \<open>
  Claim C10. \<^verbatim>\<open>structure_chapters\<close> reads \<^verbatim>\<open>min_chapter_words\<close> and never uses it: for every
  analysis, OCR map and parameters, the result (the chapters with their titles, pages,
  markup, word counts and images, or the exception) is the same for any two values of
  that parameter, and so is the strategy that returns.
\<close>

theorem min_chapter_words_unused:
  "structure_chapters fmul a ocr_results (ps\<lparr>min_chapter_words := x\<rparr>)
     = structure_chapters fmul a ocr_results (ps\<lparr>min_chapter_words := y\<rparr>)
   \<and> structure_chapters_tagged fmul a ocr_results (ps\<lparr>min_chapter_words := x\<rparr>)
     = structure_chapters_tagged fmul a ocr_results (ps\<lparr>min_chapter_words := y\<rparr>)"
  by (simp add: structure_chapters_def structure_chapters_tagged_def structure_spans_def
      get_heading_threshold_def get_chunk_size_def Let_def)

theorem min_chapter_words_unused_witness:
  "structure_chapters exact_mul (document [plain_page 0 []] []) Map.empty
       (initial_params\<lparr>min_chapter_words := Some 25\<rparr>)
     = structure_chapters exact_mul (document [plain_page 0 []] []) Map.empty
       (initial_params\<lparr>min_chapter_words := None\<rparr>)"
  using min_chapter_words_unused [where fmul = exact_mul and a = "document [plain_page 0 []] []"
      and ocr_results = Map.empty and ps = initial_params and x = "Some 25" and y = None]
  by (rule conjunct1)

subsection \<open>Validation\<close>

lemma py_round3_cases:
  fixes x :: rat
  defines "n \<equiv> \<lfloor>x * 1000\<rfloor>"
  defines "f \<equiv> x * 1000 - of_int n"
  shows "py_round3 x = of_int n / 1000 \<and> f \<le> 1 / 2
       \<or> py_round3 x = of_int (n + 1) / 1000 \<and> 1 / 2 \<le> f"
  unfolding py_round3_def Let_def f_def n_def by auto

text \<open>Rounding to three decimals moves a value by at most half a thousandth.\<close>

lemma py_round3_near: "\<bar>py_round3 x - x\<bar> \<le> 1 / 2000"
proof -
  define n where "n = \<lfloor>x * 1000\<rfloor>"
  define f where "f = x * 1000 - of_int n"
  have f0: "0 \<le> f" and f1: "f < 1"
    unfolding f_def n_def by linarith+
  from py_round3_cases [of x]
  have "py_round3 x = of_int n / 1000 \<and> f \<le> 1 / 2
      \<or> py_round3 x = of_int (n + 1) / 1000 \<and> 1 / 2 \<le> f"
    unfolding f_def n_def .
  then show ?thesis
  proof
    assume a: "py_round3 x = of_int n / 1000 \<and> f \<le> 1 / 2"
    then have "py_round3 x * 1000 = of_int n" by simp
    then show ?thesis using a f0 f_def by linarith
  next
    assume a: "py_round3 x = of_int (n + 1) / 1000 \<and> 1 / 2 \<le> f"
    then have "py_round3 x * 1000 = of_int n + 1" by simp
    then show ?thesis using a f1 f_def by linarith
  qed
qed

lemma py_round3_unit:
  assumes "0 \<le> x" "x \<le> 1"
  shows "0 \<le> py_round3 x \<and> py_round3 x \<le> 1"
proof -
  define n where "n = \<lfloor>x * 1000\<rfloor>"
  define f where "f = x * 1000 - of_int n"
  have y: "0 \<le> x * 1000" "x * 1000 \<le> 1000" using assms by auto
  have n0: "0 \<le> n" unfolding n_def using y by simp
  have n1: "n \<le> 1000" unfolding n_def using y by (simp add: floor_le_iff)
  have f0: "n = 1000 \<Longrightarrow> f = 0" unfolding f_def n_def using y by linarith
  from py_round3_cases [of x]
  have "py_round3 x = of_int n / 1000 \<and> f \<le> 1 / 2
      \<or> py_round3 x = of_int (n + 1) / 1000 \<and> 1 / 2 \<le> f"
    unfolding f_def n_def .
  then show ?thesis
  proof
    assume a: "py_round3 x = of_int n / 1000 \<and> f \<le> 1 / 2"
    then show ?thesis using n0 n1 by simp
  next
    assume a: "py_round3 x = of_int (n + 1) / 1000 \<and> 1 / 2 \<le> f"
    then have "n \<noteq> 1000" using f0 by auto
    then have "n + 1 \<le> 1000" using n1 by simp
    then have "rat_of_int (n + 1) \<le> 1000" by (metis of_int_le_iff of_int_numeral)
    moreover have "0 \<le> rat_of_int (n + 1)" using n0 by simp
    ultimately show ?thesis using a by simp
  qed
qed

text \<open>A value less than half a thousandth away from \<open>k / 1000\<close> is rounded to it.\<close>

lemma py_round3_unique:
  assumes "\<bar>x * 1000 - of_int k\<bar> < 1 / 2"
  shows "py_round3 x = of_int k / 1000"
proof -
  define n where "n = \<lfloor>x * 1000\<rfloor>"
  define f where "f = x * 1000 - of_int n"
  have f0: "0 \<le> f" and f1: "f < 1"
    unfolding f_def n_def by linarith+
  from py_round3_cases [of x]
  have "py_round3 x = of_int n / 1000 \<and> f \<le> 1 / 2
      \<or> py_round3 x = of_int (n + 1) / 1000 \<and> 1 / 2 \<le> f"
    unfolding f_def n_def .
  then show ?thesis
  proof
    assume a: "py_round3 x = of_int n / 1000 \<and> f \<le> 1 / 2"
    have "\<bar>rat_of_int n - rat_of_int k\<bar> < 1" using assms a f0 f_def by linarith
    then have "\<bar>rat_of_int (n - k)\<bar> < 1" by simp
    then have "\<bar>n - k\<bar> < 1" by (metis of_int_abs of_int_less_iff of_int_1)
    then have "n = k" by simp
    then show ?thesis using a by simp
  next
    assume a: "py_round3 x = of_int (n + 1) / 1000 \<and> 1 / 2 \<le> f"
    have "\<bar>rat_of_int n + 1 - rat_of_int k\<bar> < 1" using assms a f1 f_def by linarith
    then have "\<bar>rat_of_int (n + 1 - k)\<bar> < 1" by simp
    then have "\<bar>n + 1 - k\<bar> < 1" by (metis of_int_abs of_int_less_iff of_int_1)
    then have "n + 1 = k" by simp
    then show ?thesis using a by auto
  qed
qed

lemma raw_word_ratio_unit: "0 \<le> raw_word_ratio w s \<and> raw_word_ratio w s \<le> 1"
  by (simp add: raw_word_ratio_def)

lemma epub_word_count_replicate: "epub_word_count (replicate k one_word_item) = k"
  by (induction k) (simp_all add: epub_word_count_def one_word_item_def py_split_def is_space_def)

text \<open>
  Claim C4, as the code has it. For a publication that can be read, let \<open>r\<close> be
  \<open>min (rendered_words / source_words) 1\<close> when there are source words, and otherwise 1
  when nothing was rendered and 1/2 when something was. Then \<open>r\<close> is in \<open>[0, 1]\<close>; the
  report's \<^verbatim>\<open>word_ratio\<close> is \<open>r\<close> rounded to three decimals, which is within 0.0005 of
  \<open>r\<close> and in \<open>[0, 1]\<close> as well; \<^verbatim>\<open>passed\<close> is true iff \<open>r \<ge> 0.90\<close>, for the ratio before
  rounding; a report that passed has no failure mode, and one that did not has
  \<^verbatim>\<open>severe_word_loss\<close> if \<open>r < 0.5\<close> and \<^verbatim>\<open>moderate_word_loss\<close> otherwise (the branch for
  \<^verbatim>\<open>minor\<close> is never reached).
\<close>

theorem validate_epub_unrounded_ratio:
  "(let rendered = epub_word_count items;
        source = total_words a;
        r = (if source > 0 then min (of_nat rendered / of_nat source) 1
             else if rendered = 0 then 1 else 1 / 2);
        rep = validate_epub (Items items) a c n
    in 0 \<le> r \<and> r \<le> 1
       \<and> word_ratio rep = Some (py_round3 r)
       \<and> \<bar>py_round3 r - r\<bar> \<le> 1 / 2000 \<and> 0 \<le> py_round3 r \<and> py_round3 r \<le> 1
       \<and> source_words rep = Some source \<and> epub_words rep = Some rendered
       \<and> passed rep = Some (r \<ge> 9 / 10)
       \<and> failure_mode rep =
           (if r \<ge> 9 / 10 then None
            else if r < 1 / 2 then Some ''severe_word_loss''
            else Some ''moderate_word_loss''))"
proof -
  define r where "r = raw_word_ratio (epub_word_count items) (total_words a)"
  have u: "0 \<le> r" "r \<le> 1" unfolding r_def using raw_word_ratio_unit by blast+
  have ru: "0 \<le> py_round3 r" "py_round3 r \<le> 1" using py_round3_unit [OF u] by blast+
  have "0 \<le> r \<and> r \<le> 1
       \<and> word_ratio (validate_epub (Items items) a c n) = Some (py_round3 r)
       \<and> \<bar>py_round3 r - r\<bar> \<le> 1 / 2000 \<and> 0 \<le> py_round3 r \<and> py_round3 r \<le> 1
       \<and> source_words (validate_epub (Items items) a c n) = Some (total_words a)
       \<and> epub_words (validate_epub (Items items) a c n) = Some (epub_word_count items)
       \<and> passed (validate_epub (Items items) a c n) = Some (r \<ge> 9 / 10)
       \<and> failure_mode (validate_epub (Items items) a c n) =
           (if r \<ge> 9 / 10 then None
            else if r < 1 / 2 then Some ''severe_word_loss''
            else Some ''moderate_word_loss'')"
    using u ru py_round3_near [of r]
    by (simp add: validate_epub_def Let_def r_def [symmetric])
  then show ?thesis
    unfolding r_def raw_word_ratio_def Let_def .
qed

theorem validate_epub_unrounded_ratio_witness:
  "passed (validate_epub (Items (replicate 850 one_word_item))
             ((document [] [])\<lparr>total_words := 1000\<rparr>) 3 0) = Some False
   \<and> word_ratio (validate_epub (Items (replicate 850 one_word_item))
             ((document [] [])\<lparr>total_words := 1000\<rparr>) 3 0) = Some (85 / 100)
   \<and> failure_mode (validate_epub (Items (replicate 850 one_word_item))
             ((document [] [])\<lparr>total_words := 1000\<rparr>) 3 0) = Some ''moderate_word_loss''"
  using validate_epub_unrounded_ratio [where items = "replicate 850 one_word_item"
      and a = "(document [] [])\<lparr>total_words := 1000\<rparr>" and c = 3 and n = 0]
    py_round3_unique [of "850 / 1000" 850]
  by (simp add: Let_def epub_word_count_replicate)

text \<open>
  The claim as stated fails for the ratio that the report carries. With 1800 words
  rendered of 2001 source words the ratio is 0.89955: the report does not pass and has
  the failure mode \<^verbatim>\<open>moderate_word_loss\<close>, while its \<^verbatim>\<open>word_ratio\<close> is 0.9, which is
  neither \<open>1800 / 2001\<close> nor below 0.9.
\<close>

theorem rounded_ratio_reaches_threshold:
  "passed (validate_epub (Items (replicate 1800 one_word_item))
             ((document [] [])\<lparr>total_words := 2001\<rparr>) 3 0) = Some False
   \<and> word_ratio (validate_epub (Items (replicate 1800 one_word_item))
             ((document [] [])\<lparr>total_words := 2001\<rparr>) 3 0) = Some (9 / 10)
   \<and> failure_mode (validate_epub (Items (replicate 1800 one_word_item))
             ((document [] [])\<lparr>total_words := 2001\<rparr>) 3 0) = Some ''moderate_word_loss''"
  using py_round3_unique [of "1800 / 2001" 900]
  by (simp add: validate_epub_def Let_def epub_word_count_replicate raw_word_ratio_def)

text \<open>
  Claim C8, as the code has it. When the publication cannot be read back, the report has
  \<^verbatim>\<open>passed\<close> false, no failure mode, no count of source or rendered words, and the
  number 0 as its \<^verbatim>\<open>word_ratio\<close>; \<^verbatim>\<open>adjust_params\<close> returns the parameters unchanged for
  it, so the next attempt runs with the same parameters.
\<close>

theorem readback_failure_report:
  "passed (validate_epub (ReadFailure e) a c n) = Some False
   \<and> failure_mode (validate_epub (ReadFailure e) a c n) = None
   \<and> word_ratio (validate_epub (ReadFailure e) a c n) = Some 0
   \<and> source_words (validate_epub (ReadFailure e) a c n) = None
   \<and> epub_words (validate_epub (ReadFailure e) a c n) = None
   \<and> adjust_params ps (validate_epub (ReadFailure e) a c n) = ps"
  by (simp add: validate_epub_def adjust_params_def)

theorem readback_failure_report_witness:
  "adjust_params initial_params
     (validate_epub (ReadFailure ''bad zip file'') (document [plain_page 0 []] []) 1 0)
   = initial_params"
  using readback_failure_report [where e = "''bad zip file''"
      and a = "document [plain_page 0 []] []" and c = 1 and n = 0 and ps = initial_params]
  by simp

text \<open>
  The claim as stated fails in one point: the report of a failed readback does carry a
  numeric word ratio, the number 0.
\<close>

theorem readback_failure_has_ratio:
  "word_ratio (validate_epub (ReadFailure ''bad zip file'') (document [plain_page 0 []] []) 1 0)
     \<noteq> None"
  by (simp add: validate_epub_def)

subsection \<open>The structuring raises only on a chunk size of 0\<close>

lemma outline_chapters_nonempty: "c \<in> set (outline_chapters bs n) \<Longrightarrow> snd c \<noteq> []"
  by (induction bs n rule: outline_chapters.induct) (auto simp: Let_def split: if_splits)

lemma heading_chapters_nonempty: "c \<in> set (heading_chapters hs n) \<Longrightarrow> snd c \<noteq> []"
  by (induction hs n rule: heading_chapters.induct) (auto simp: Let_def split: if_splits)

lemma add_front_matter_ok:
  assumes "cs \<noteq> []" and "\<forall>c \<in> set cs. snd c \<noteq> []"
  shows "\<exists>r. add_front_matter cs = Inr r"
proof -
  obtain t ps rest where cs: "cs = (t, ps) # rest" using assms(1) by (cases cs) auto
  then have "ps \<noteq> []" using assms(2) by auto
  then obtain p ps' where "ps = p # ps'" by (cases ps) auto
  then show ?thesis unfolding add_front_matter_def cs by simp
qed

lemma tier1_front_ok:
  "tier1_chapters a \<noteq> [] \<Longrightarrow> \<exists>r. add_front_matter (tier1_chapters a) = Inr r"
  by (rule add_front_matter_ok)
     (auto simp: tier1_chapters_def dest: outline_chapters_nonempty split: if_splits)

lemma tier2_front_ok:
  "tier2_chapters fmul a th \<noteq> [] \<Longrightarrow> \<exists>r. add_front_matter (tier2_chapters fmul a th) = Inr r"
  by (rule add_front_matter_ok)
     (auto simp: tier2_chapters_def Let_def dest: heading_chapters_nonempty split: if_splits)

lemma structure_spans_ok:
  assumes "get_chunk_size ps \<noteq> 0"
  shows "\<exists>t cs. structure_spans fmul a ps = Inr (t, cs)"
proof (cases "tier1_chapters a \<noteq> []")
  case True
  then show ?thesis
    using tier1_front_ok [OF True] by (auto simp: structure_spans_def Let_def)
next
  case False
  note f1 = this
  show ?thesis
  proof (cases "tier2_chapters fmul a (get_heading_threshold ps) \<noteq> []")
    case True
    then show ?thesis
      using f1 tier2_front_ok [OF True] by (auto simp: structure_spans_def Let_def)
  next
    case False
    then show ?thesis using f1 assms by (auto simp: structure_spans_def Let_def)
  qed
qed

lemma structure_chapters_ok:
  assumes "get_chunk_size ps \<noteq> 0"
  shows "\<exists>chs. structure_chapters fmul a ocr ps = Inr chs"
  using structure_spans_ok [OF assms, where a = a and fmul = fmul]
  by (auto simp: structure_chapters_def structure_chapters_tagged_def)

subsection \<open>The iteration loop\<close>

lemma usable_initial: "usable_params initial_params"
  by (simp add: usable_params_def initial_params_def)

lemma usable_adjust: "usable_params ps \<Longrightarrow> usable_params (adjust_params ps r)"
  by (auto simp: usable_params_def adjust_params_def Let_def get_chunk_size_def
      split: option.splits)

lemma usable_chunk: "usable_params ps \<Longrightarrow> get_chunk_size ps \<noteq> 0"
  by (auto simp: usable_params_def get_chunk_size_def split: option.splits)

lemma validate_passed: "passed (validate_epub rb a c n) \<noteq> None"
  by (cases rb) (simp_all add: validate_epub_def Let_def)

lemma validate_word_ratio: "word_ratio (validate_epub rb a c n) \<noteq> None"
  by (cases rb) (simp_all add: validate_epub_def Let_def)

lemma iteration_range: "[1..<MAX_ITERATIONS + 1] = [1, 2, 3]"
  by (simp add: MAX_ITERATIONS_def upt_rec)

text \<open>
  What the loop does over any rest \<open>its\<close> of its range, from usable parameters: it
  returns; it makes the reports \<open>new\<close>, one for each iteration that it runs, in order;
  all but the last of them failed; the last one is the best result; after a
  \<^verbatim>\<open>break\<close> the last one passed, and at the end of the range all failed.
\<close>

lemma iterations_run:
  assumes "usable_params ps"
  shows "\<exists>res new. iterations fmul env a ocr its ps best hist = Inr res
      \<and> history res = hist @ new
      \<and> length new \<le> length its
      \<and> list_all2 (attempt_of env a) new (take (length new) its)
      \<and> (\<forall>r \<in> set (butlast new). passed r = Some False)
      \<and> best_result res = (if new = [] then best else Some (last new))
      \<and> (end_state res = Passed \<longrightarrow> new \<noteq> [] \<and> passed (last new) = Some True)
      \<and> (end_state res = Exhausted \<longrightarrow>
            length new = length its \<and> (\<forall>r \<in> set new. passed r = Some False))"
  using assms
proof (induction its arbitrary: ps best hist)
  case Nil
  show ?case by simp
next
  case (Cons it rest)
  from Cons.prems obtain h k
    where ht: "heading_threshold ps = Some h" and cs: "chunk_size ps = Some k"
    by (auto simp: usable_params_def split: option.splits)
  obtain chs where chs: "structure_chapters fmul a ocr ps = Inr chs"
    using structure_chapters_ok [OF usable_chunk [OF Cons.prems]] by blast
  define rep
    where "rep = validate_epub (env it) a (fst (build_epub_counts chs)) (snd (build_epub_counts chs))"
  have att: "attempt_of env a rep it" unfolding attempt_of_def rep_def by blast
  obtain w where wr: "word_ratio rep = Some w"
    using validate_word_ratio [of "env it" a "fst (build_epub_counts chs)"
        "snd (build_epub_counts chs)"]
    unfolding rep_def by blast
  have "passed rep \<noteq> None" unfolding rep_def by (rule validate_passed)
  then consider (ok) "passed rep = Some True" | (fail) "passed rep = Some False"
    by (cases "passed rep") auto
  then show ?case
  proof cases
    case ok
    have eq: "iterations fmul env a ocr (it # rest) ps best hist =
        Inr \<lparr> end_state = Passed, best_result = Some rep, final_params = ps,
              history = hist @ [rep] \<rparr>"
      using ht cs chs wr ok by (simp add: Let_def rep_def [symmetric])
    show ?thesis
      unfolding eq
      apply (rule exI [where x = "\<lparr> end_state = Passed, best_result = Some rep,
          final_params = ps, history = hist @ [rep] \<rparr>"])
      apply (rule exI [where x = "[rep]"])
      using ok att by simp
  next
    case fail
    define ps' where "ps' = (if it < MAX_ITERATIONS then adjust_params ps rep else ps)"
    have u: "usable_params ps'" unfolding ps'_def using Cons.prems usable_adjust by simp
    have step: "iterations fmul env a ocr (it # rest) ps best hist =
        iterations fmul env a ocr rest ps' (Some rep) (hist @ [rep])"
      using ht cs chs wr fail by (simp add: Let_def rep_def [symmetric] ps'_def)
    from Cons.IH [OF u, of "Some rep" "hist @ [rep]"]
    obtain res new where r:
      "iterations fmul env a ocr rest ps' (Some rep) (hist @ [rep]) = Inr res"
      "history res = (hist @ [rep]) @ new" "length new \<le> length rest"
      "list_all2 (attempt_of env a) new (take (length new) rest)"
      "\<forall>r \<in> set (butlast new). passed r = Some False"
      "best_result res = (if new = [] then Some rep else Some (last new))"
      "end_state res = Passed \<longrightarrow> new \<noteq> [] \<and> passed (last new) = Some True"
      "end_state res = Exhausted \<longrightarrow>
         length new = length rest \<and> (\<forall>r \<in> set new. passed r = Some False)"
      by blast
    have b: "\<forall>r \<in> set (butlast (rep # new)). passed r = Some False"
      using r(5) fail by auto
    show ?thesis
      unfolding step r(1)
      apply (rule exI [where x = res], rule exI [where x = "rep # new"])
      using r(2,3,4,6,7,8) b att fail by auto
  qed
qed

lemma attempts_numbered:
  assumes "list_all2 (attempt_of env a) new (take (length new) [1, 2, 3])"
    and "i < length new" and "length new \<le> 3"
  shows "attempt_of env a (new ! i) (Suc i)"
proof -
  have "attempt_of env a (new ! i) (take (length new) [1, 2, 3] ! i)"
    using assms(1,2) by (rule list_all2_nthD)
  moreover have "take (length new) [1, 2, 3::nat] ! i = Suc i"
    using assms(2,3) by (cases i; cases "i - 1"; cases "i - 2") (auto simp: nth_Cons')
  ultimately show ?thesis by simp
qed

text \<open>
  Claim C6. From the parameters that the controller starts with, and whatever reading
  the publications back gives, the loop returns: it makes at least one and at most 3
  attempts, the report of attempt \<open>i\<close> being the validation of what attempt \<open>i\<close> wrote;
  every attempt before the last one failed; and either the loop ended by its \<^verbatim>\<open>break\<close>
  in the state \<open>Passed\<close>, the last report being the first one that passed, or it ended
  in the state \<open>Exhausted\<close> after 3 attempts that all failed. Writing the publication is
  taken to succeed.
\<close>

theorem iteration_loop_terminates:
  "\<exists>res. iteration_loop fmul env a ocr_results = Inr res
     \<and> 1 \<le> length (history res) \<and> length (history res) \<le> 3
     \<and> list_all2 (attempt_of env a) (history res) (take (length (history res)) [1, 2, 3])
     \<and> (\<forall>r \<in> set (butlast (history res)). passed r = Some False)
     \<and> best_result res = Some (last (history res))
     \<and> (end_state res = Passed \<and> passed (last (history res)) = Some True
        \<or> end_state res = Exhausted \<and> length (history res) = 3
           \<and> passed (last (history res)) = Some False)"
proof -
  from iterations_run [OF usable_initial, of fmul env a ocr_results "[1, 2, 3]" None "[]"]
  obtain res new
    where r: "iterations fmul env a ocr_results [1, 2, 3] initial_params None [] = Inr res"
      "history res = new" "length new \<le> 3"
      "list_all2 (attempt_of env a) new (take (length new) [1, 2, 3])"
      "\<forall>r \<in> set (butlast new). passed r = Some False"
      "best_result res = (if new = [] then None else Some (last new))"
      "end_state res = Passed \<longrightarrow> new \<noteq> [] \<and> passed (last new) = Some True"
      "end_state res = Exhausted \<longrightarrow> length new = 3 \<and> (\<forall>r \<in> set new. passed r = Some False)"
    by auto
  have ne: "new \<noteq> []" using r(7,8) by (cases "end_state res") auto
  have e: "end_state res = Exhausted \<Longrightarrow> passed (last new) = Some False"
    using r(8) ne last_in_set by blast
  have l: "iteration_loop fmul env a ocr_results = Inr res"
    unfolding iteration_loop_def iteration_range by (rule r(1))
  show ?thesis
    apply (rule exI [where x = res])
    using l r(2,3,4,5,6,7,8) ne e by (cases "end_state res") (auto simp: Suc_le_eq)
qed

theorem iteration_loop_terminates_witness:
  "map_sum id end_state
      (iteration_loop exact_mul (\<lambda>i. Items []) (document [plain_page 0 []] []) Map.empty) = Inr Passed
   \<and> map_sum id (\<lambda>res. length (history res))
      (iteration_loop exact_mul (\<lambda>i. Items []) (document [plain_page 0 []] []) Map.empty) = Inr 1"
proof -
  have p: "passed (validate_epub (Items []) (document [plain_page 0 []] []) c n) = Some True"
    for c n
    by (simp add: validate_epub_def Let_def epub_word_count_def raw_word_ratio_def
        document_def plain_page_def)
  from iteration_loop_terminates [where fmul = exact_mul and env = "\<lambda>i. Items []"
      and a = "document [plain_page 0 []] []" and ocr_results = Map.empty]
  obtain res
    where r: "iteration_loop exact_mul (\<lambda>i. Items []) (document [plain_page 0 []] []) Map.empty = Inr res"
     "1 \<le> length (history res)" "length (history res) \<le> 3"
     "list_all2 (attempt_of (\<lambda>i. Items []) (document [plain_page 0 []] [])) (history res)
        (take (length (history res)) [1, 2, 3])"
     "\<forall>r \<in> set (butlast (history res)). passed r = Some False"
     "end_state res = Passed \<and> passed (last (history res)) = Some True
        \<or> end_state res = Exhausted \<and> length (history res) = 3
           \<and> passed (last (history res)) = Some False"
    by blast
  have all: "passed x = Some True" if "x \<in> set (history res)" for x
  proof -
    from that obtain i where i: "i < length (history res)" "x = history res ! i"
      by (auto simp: in_set_conv_nth)
    from attempts_numbered [OF r(4) i(1) r(3)] show ?thesis
      unfolding attempt_of_def i(2) using p by auto
  qed
  have ne: "history res \<noteq> []" using r(2) by auto
  have "butlast (history res) = []"
  proof (rule ccontr)
    assume "butlast (history res) \<noteq> []"
    then obtain x where x: "x \<in> set (butlast (history res))"
      by (cases "butlast (history res)") auto
    then have "passed x = Some False" using r(5) by blast
    moreover have "passed x = Some True" using all x in_set_butlastD by metis
    ultimately show False by simp
  qed
  then have len: "length (history res) = 1"
    using ne by (cases "history res") (auto split: if_splits)
  have "passed (last (history res)) = Some True" using all ne last_in_set by blast
  then have "end_state res = Passed" using r(6) by auto
  then show ?thesis using r(1) len by simp
qed

subsection \<open>The report that is surfaced\<close>

text \<open>
  When the three attempts fail, the loop ends exhausted and its best result is the
  report of the third attempt.
\<close>

lemma all_attempts_fail:
  assumes f: "\<And>i c n. i \<in> {1, 2, 3} \<Longrightarrow> passed (validate_epub (env i) a c n) = Some False"
  shows "\<exists>res c n. iteration_loop fmul env a ocr_results = Inr res
      \<and> end_state res = Exhausted \<and> length (history res) = 3
      \<and> best_result res = Some (validate_epub (env 3) a c n)"
proof -
  from iterations_run [OF usable_initial, of fmul env a ocr_results "[1, 2, 3]" None "[]"]
  obtain res new
    where r: "iterations fmul env a ocr_results [1, 2, 3] initial_params None [] = Inr res"
      "history res = new" "length new \<le> 3"
      "list_all2 (attempt_of env a) new (take (length new) [1, 2, 3])"
      "best_result res = (if new = [] then None else Some (last new))"
      "end_state res = Passed \<longrightarrow> new \<noteq> [] \<and> passed (last new) = Some True"
      "end_state res = Exhausted \<longrightarrow> length new = 3 \<and> (\<forall>r \<in> set new. passed r = Some False)"
    by auto
  have fails: "passed (new ! i) = Some False" if "i < length new" for i
  proof -
    from attempts_numbered [OF r(4) that r(3)]
    obtain c n where cn: "new ! i = validate_epub (env (Suc i)) a c n"
      unfolding attempt_of_def by blast
    have "Suc i \<in> {1, 2, 3}" using that r(3) by auto
    then show ?thesis using cn f by simp
  qed
  have ex: "end_state res = Exhausted"
  proof (rule ccontr)
    assume "end_state res \<noteq> Exhausted"
    then have p: "end_state res = Passed" by (cases "end_state res") auto
    then have ne: "new \<noteq> []" and t: "passed (last new) = Some True" using r(6) by auto
    have "passed (new ! (length new - 1)) = Some False"
      using fails [of "length new - 1"] ne by simp
    then show False using t ne by (simp add: last_conv_nth)
  qed
  then have len: "length new = 3" using r(7) by simp
  from attempts_numbered [OF r(4), of 2] len
  obtain c n where "new ! 2 = validate_epub (env 3) a c n"
    unfolding attempt_of_def by (auto simp: numeral_3_eq_3)
  moreover have "new \<noteq> []" using len by auto
  then have "last new = new ! 2" using len by (simp add: last_conv_nth)
  ultimately have "best_result res = Some (validate_epub (env 3) a c n)"
    using r(5) len by auto
  moreover have "iteration_loop fmul env a ocr_results = Inr res"
    unfolding iteration_loop_def iteration_range by (rule r(1))
  ultimately show ?thesis using ex len r(2) by blast
qed

text \<open>
  When the three attempts fail and the publication of the third can be read, the run
  completes and its quality summary has the six values of the third report.
\<close>

lemma readable_last_attempt_surfaced:
  assumes f: "\<And>i c n. i \<in> {1, 2, 3} \<Longrightarrow> passed (validate_epub (env i) a c n) = Some False"
    and rd: "env 3 = Items items"
  shows "\<exists>c n q. conversion_status fmul env a ocr_results = Completed q
      \<and> word_ratio (validate_epub (env 3) a c n) = Some (wordRatio q)
      \<and> source_words (validate_epub (env 3) a c n) = Some (sourceWords q)
      \<and> epub_words (validate_epub (env 3) a c n) = Some (epubWords q)
      \<and> report_chapters (validate_epub (env 3) a c n) = Some (quality_chapters q)
      \<and> report_images (validate_epub (env 3) a c n) = Some (quality_images q)
      \<and> passed (validate_epub (env 3) a c n) = Some (quality_passed q)"
proof -
  from all_attempts_fail [where env = env and a = a and fmul = fmul
      and ocr_results = ocr_results, OF f]
  obtain res c n where r: "iteration_loop fmul env a ocr_results = Inr res"
      "best_result res = Some (validate_epub (env 3) a c n)"
    by blast
  show ?thesis
    apply (rule exI [where x = c], rule exI [where x = n])
    using r rd
    by (simp add: conversion_status_def quality_report_def validate_epub_def Let_def)
qed

text \<open>
  When the two first attempts fail and the publication of the third cannot be read, the
  report of the third attempt has no key \<^verbatim>\<open>source_words\<close>: building the quality summary
  raises \<^verbatim>\<open>KeyError\<close>, and the run ends with the status \<^verbatim>\<open>error\<close>.
\<close>

lemma unreadable_last_attempt_fails:
  assumes f1: "\<And>c n. passed (validate_epub (env 1) a c n) = Some False"
    and f2: "\<And>c n. passed (validate_epub (env 2) a c n) = Some False"
    and f3: "env 3 = ReadFailure e"
  shows "conversion_status fmul env a ocr_results = Failed (KeyError ''source_words'')"
proof -
  have "passed (validate_epub (env i) a c n) = Some False" if "i \<in> {1, 2, 3}" for i c n
    using that f1 f2 f3 by (auto simp: validate_epub_def)
  from all_attempts_fail [where env = env and a = a and fmul = fmul
      and ocr_results = ocr_results, OF this]
  obtain res c n where r: "iteration_loop fmul env a ocr_results = Inr res"
      "best_result res = Some (validate_epub (env 3) a c n)"
    by blast
  show ?thesis
    using r f3 by (simp add: conversion_status_def quality_report_def validate_epub_def)
qed

text \<open>
  Claim C7 at a run where it fails. The document has one page and three source words,
  and no publication that the controller writes can be read back. Each of the three
  attempts fails, and the report of the third is the best result. The claim has that
  report surfaced in the quality summary; the code ends with the status \<^verbatim>\<open>error\<close> and
  writes no summary.
\<close>

theorem unreadable_publication_is_an_error:
  "conversion_status exact_mul (\<lambda>i. ReadFailure ''bad zip file'')
      (document
         [plain_page 0 [\<lparr> block_text = ''one two three'', block_size = 12, bold = False \<rparr>]] [])
      Map.empty
   = Failed (KeyError ''source_words'')"
  by (rule unreadable_last_attempt_fails [where e = "''bad zip file''"])
     (simp_all add: validate_epub_def)

subsection \<open>The chapters of the outline and of the headings\<close>




lemma detect_headings_pages:
  "h \<in> set (detect_headings fmul ps body hmin) \<Longrightarrow> heading_page h \<in> page_num ` set ps"
  by (auto simp: detect_headings_def page_headings_def split: if_splits)

lemma pages_numbered_bound: "pages_numbered ps \<Longrightarrow> p \<in> set ps \<Longrightarrow> page_num p < length ps"
proof -
  assume a: "pages_numbered ps" "p \<in> set ps"
  then have "page_num p \<in> set (map page_num ps)" by simp
  then have "page_num p \<in> set [0..<length ps]" using a(1) unfolding pages_numbered_def by simp
  then show ?thesis by simp
qed

lemma keep_largest_ok:
  assumes "seen_ok S seen" "h \<in> S"
  shows "seen_ok S (keep_largest seen h)"
proof (cases "map_of seen (heading_page h)")
  case None
  then have "heading_page h \<notin> fst ` set seen" by (simp add: map_of_eq_None_iff)
  then show ?thesis using assms None by (auto simp: seen_ok_def keep_largest_def)
next
  case (Some old)
  have m: "fst \<circ> (\<lambda>(k, v). if k = heading_page h then (k, h) else (k, v)) = fst"
    by (auto simp: fun_eq_iff)
  show ?thesis
  proof (cases "heading_size h > heading_size old")
    case True
    then have k: "keep_largest seen h =
        map (\<lambda>(k, v). if k = heading_page h then (k, h) else (k, v)) seen"
      using Some by (simp add: keep_largest_def)
    show ?thesis
      unfolding k seen_ok_def using assms
      by (auto simp: m seen_ok_def split: if_splits)
  next
    case False
    then show ?thesis using assms Some by (simp add: keep_largest_def)
  qed
qed

lemma foldl_keep_largest_ok:
  "seen_ok S seen \<Longrightarrow> set d \<subseteq> S \<Longrightarrow> seen_ok S (foldl keep_largest seen d)"
  by (induction d arbitrary: seen) (auto simp: keep_largest_ok)

lemma keep_largest_ne: "keep_largest seen h \<noteq> []"
  by (cases seen) (auto simp: keep_largest_def split: option.splits)

lemma foldl_keep_largest_ne: "seen \<noteq> [] \<or> d \<noteq> [] \<Longrightarrow> foldl keep_largest seen d \<noteq> []"
  by (induction d arbitrary: seen) (auto simp: keep_largest_ne)

lemma sorted_headings_props:
  "set (sorted_headings d) \<subseteq> set d
   \<and> sorted_wrt (<) (map heading_page (sorted_headings d))
   \<and> (d \<noteq> [] \<longrightarrow> sorted_headings d \<noteq> [])"
proof -
  define seen where "seen = foldl keep_largest [] d"
  define hs where "hs = map snd seen"
  have ok: "seen_ok (set d) seen" unfolding seen_def
    by (rule foldl_keep_largest_ok) (simp_all add: seen_ok_def)
  have pg: "map heading_page hs = map fst seen"
    using ok unfolding seen_ok_def hs_def by auto
  have sub: "set hs \<subseteq> set d" using ok unfolding seen_ok_def hs_def by auto
  have dist: "distinct (map heading_page hs)"
    unfolding pg using ok by (simp add: seen_ok_def)
  have "mset (map heading_page (sort_key heading_page hs)) = mset (map heading_page hs)"
    by simp
  then have d2: "distinct (map heading_page (sort_key heading_page hs))"
    using dist mset_eq_imp_distinct_iff by blast
  have s2: "sorted (map heading_page (sort_key heading_page hs))"
    by (rule sorted_sort_key)
  have "d \<noteq> [] \<longrightarrow> hs \<noteq> []"
    unfolding hs_def seen_def using foldl_keep_largest_ne [of "[]" d] by simp
  then have ne: "d \<noteq> [] \<longrightarrow> sort_key heading_page hs \<noteq> []"
    by (metis length_sort length_0_conv)
  have sh: "sorted_headings d = sort_key heading_page hs"
    unfolding sorted_headings_def hs_def seen_def ..
  show ?thesis
    unfolding sh using sub d2 s2 ne by (auto simp: strict_sorted_iff)
qed

lemma heading_chapters_single:
  "heading_chapters [h] n = (if heading_page h < n then [(heading_title h, [heading_page h..<n])] else [])"
  by (simp add: Let_def)

lemma heading_chapters_two:
  "heading_chapters (h # h' # hs) n =
     (if heading_page h < heading_page h'
      then [(heading_title h, [heading_page h..<heading_page h'])] else [])
     @ heading_chapters (h' # hs) n"
  by (simp add: Let_def del: heading_chapters.simps(2) add: heading_chapters.simps(2) [of h "h' # hs" n])


lemma heading_chapters_concat:
  "hs \<noteq> [] \<Longrightarrow> sorted (map heading_page hs) \<Longrightarrow> \<forall>h \<in> set hs. heading_page h \<le> n
    \<Longrightarrow> concat (map snd (heading_chapters hs n)) = [heading_page (hd hs)..<n]"
proof (induction hs rule: induct_list012)
  case 1
  then show ?case by simp
next
  case (2 h)
  then show ?case unfolding heading_chapters_single by simp
next
  case (3 h h' hs)
  have le: "heading_page h \<le> heading_page h'" "heading_page h' \<le> n"
    using "3.prems" by auto
  have ih: "concat (map snd (heading_chapters (h' # hs) n)) = [heading_page h'..<n]"
    using "3.IH"(2) "3.prems" by simp
  have j: "[heading_page h..<heading_page h'] @ [heading_page h'..<n] = [heading_page h..<n]"
    using le by (metis le_Suc_ex upt_add_eq_append)
  show ?case
  proof (cases "heading_page h < heading_page h'")
    case True
    then show ?thesis unfolding heading_chapters_two using ih j by simp
  next
    case False
    then have "heading_page h = heading_page h'" using le by simp
    then show ?thesis unfolding heading_chapters_two using ih by simp
  qed
qed

lemma outline_chapters_single:
  "outline_chapters [(t, s)] n =
     (if max 0 s < int n then [(t, [nat (max 0 s)..<n])] else [])"
  by (auto simp: Let_def)

lemma outline_chapters_two:
  "outline_chapters ((t, s) # (t', s') # bs) n =
     (if max 0 s < s' \<and> max 0 s < int n
      then [(t, [nat (max 0 s)..<nat (min s' (int n))])] else [])
     @ outline_chapters ((t', s') # bs) n"
proof -
  have "outline_chapters ((t, s) # (t', s') # bs) n =
     (if [nat (max 0 s)..<nat (min s' (int n))] \<noteq> []
      then [(t, [nat (max 0 s)..<nat (min s' (int n))])] else [])
     @ outline_chapters ((t', s') # bs) n"
    by (simp add: Let_def del: outline_chapters.simps(2)
        add: outline_chapters.simps(2) [of t s "(t', s') # bs" n])
  moreover have "[nat (max 0 s)..<nat (min s' (int n))] \<noteq> [] \<longleftrightarrow> max 0 s < s' \<and> max 0 s < int n"
    by auto
  ultimately show ?thesis by simp
qed

lemma upt_join: "a \<le> b \<Longrightarrow> b \<le> c \<Longrightarrow> [a..<b] @ [b..<c] = [a..<(c::nat)]"
  by (metis le_Suc_ex upt_add_eq_append)

lemma outline_chapters_concat:
  "bs \<noteq> [] \<Longrightarrow> sorted (map snd bs)
    \<Longrightarrow> concat (map snd (outline_chapters bs n)) = [nat (max 0 (snd (hd bs)))..<n]"
proof (induction bs rule: induct_list012)
  case 1
  then show ?case by simp
next
  case (2 b)
  obtain t s where b: "b = (t, s)" by (cases b)
  show ?case unfolding b outline_chapters_single by auto
next
  case (3 b b' bs)
  obtain t s where b: "b = (t, s)" by (cases b)
  obtain t' s' where b': "b' = (t', s')" by (cases b')
  have le: "s \<le> s'" using "3.prems" unfolding b b' by simp
  define R where "R = outline_chapters ((t', s') # bs) n"
  have ih: "concat (map snd R) = [nat (max 0 s')..<n]"
    using "3.IH"(2) "3.prems" unfolding b b' R_def by simp
  have two: "outline_chapters ((t, s) # (t', s') # bs) n =
     (if max 0 s < s' \<and> max 0 s < int n
      then [(t, [nat (max 0 s)..<nat (min s' (int n))])] else []) @ R"
    unfolding R_def by (rule outline_chapters_two)
  show ?case
  proof (cases "max 0 s < s' \<and> max 0 s < int n")
    case True
    have "[nat (max 0 s)..<nat (min s' (int n))] @ [nat (max 0 s')..<n] = [nat (max 0 s)..<n]"
    proof (cases "s' \<le> int n")
      case True
      then have "nat (min s' (int n)) = nat (max 0 s')" using \<open>max 0 s < s' \<and> max 0 s < int n\<close> by auto
      moreover have "nat (max 0 s) \<le> nat (max 0 s')" using le by auto
      moreover have "nat (max 0 s') \<le> n" using True by auto
      ultimately show ?thesis using upt_join by simp
    next
      case False
      then have "nat (min s' (int n)) = n" "[nat (max 0 s')..<n] = []" by auto
      then show ?thesis by simp
    qed
    moreover have "outline_chapters ((t, s) # (t', s') # bs) n =
        [(t, [nat (max 0 s)..<nat (min s' (int n))])] @ R"
      by (simp only: two if_P [OF True])
    ultimately show ?thesis unfolding b b' using ih by simp
  next
    case False
    have "[nat (max 0 s')..<n] = [nat (max 0 s)..<n]"
    proof (cases "max 0 s < int n")
      case True
      then have "max 0 s = max 0 s'" using False le by auto
      then show ?thesis by simp
    next
      case False
      then have "n \<le> nat (max 0 s)" "n \<le> nat (max 0 s')" using le by auto
      then show ?thesis by simp
    qed
    moreover have "outline_chapters ((t, s) # (t', s') # bs) n = R"
      by (simp only: two if_not_P [OF False] append_Nil)
    ultimately show ?thesis unfolding b b' using ih by simp
  qed
qed

subsection \<open>Front matter, chunks and rendering\<close>

lemma add_front_matter_cover:
  assumes "cs \<noteq> []" and "\<forall>c \<in> set cs. snd c \<noteq> []" and "concat (map snd cs) = [p..<n]"
  shows "\<exists>cs'. add_front_matter cs = Inr cs' \<and> exact_cover (map snd cs') n"
proof -
  obtain t ps rest where cs: "cs = (t, ps) # rest" using assms(1) by (cases cs) auto
  then have "ps \<noteq> []" using assms(2) by auto
  then obtain q qs where ps: "ps = q # qs" by (cases ps) auto
  have "[p..<n] = q # (qs @ concat (map snd rest))" using assms(3) unfolding cs ps by simp
  then have pq: "p < n" "p = q" by (auto simp: upt_eq_Cons_conv)
  have ne: "list_all (\<lambda>ps. ps \<noteq> []) (map snd cs)" using assms(2) by (simp add: list_all_iff)
  show ?thesis
  proof (cases "0 < q")
    case True
    have a: "add_front_matter cs = Inr ((''Portada'', [0..<q]) # cs)"
      unfolding add_front_matter_def cs ps using True by simp
    have "[0..<q] @ [p..<n] = [0..<n]" using pq by (metis less_imp_le_nat upt_add_eq_append le0 le_Suc_ex)
    then have "exact_cover (map snd ((''Portada'', [0..<q]) # cs)) n"
      unfolding exact_cover_def using ne assms(3) True by simp
    then show ?thesis using a by blast
  next
    case False
    then have q0: "q = 0" by simp
    have a: "add_front_matter cs = Inr cs"
      unfolding add_front_matter_def cs ps using q0 by simp
    have "exact_cover (map snd cs) n"
      unfolding exact_cover_def using ne assms(3) pq q0 by simp
    then show ?thesis using a by blast
  qed
qed

lemma build_chapter_content_pages:
  "map chapter_pages (build_chapter_content fmul cs ps ocr a) = map snd cs"
  by (simp add: build_chapter_content_def build_chapter_def Let_def)

lemma build_chapter_content_titles:
  "map title (build_chapter_content fmul cs ps ocr a) = map fst cs"
  by (simp add: build_chapter_content_def build_chapter_def Let_def)

lemma fixed_chunks_done: "\<not> (0 < step \<and> i < n) \<Longrightarrow> fixed_chunks i n step k = []"
  by (subst fixed_chunks.simps) simp

lemma fixed_chunks_step:
  "0 < step \<Longrightarrow> i < n \<Longrightarrow>
     fixed_chunks i n step k =
       (''Secci'' @ [CHR 0xF3] @ ''n '' @ str_nat (k + 1), [i..<min (i + step) n])
         # fixed_chunks (i + step) n step (k + 1)"
  by (subst fixed_chunks.simps) simp

lemma fixed_chunks_cover:
  "0 < step \<Longrightarrow> i \<le> n \<Longrightarrow>
     concat (map snd (fixed_chunks i n step k)) = [i..<n]
     \<and> list_all (\<lambda>c. snd c \<noteq> []) (fixed_chunks i n step k)"
proof (induction "n - i" arbitrary: i k rule: less_induct)
  case less
  show ?case
  proof (cases "i < n")
    case False
    then have "fixed_chunks i n step k = []" by (rule_tac fixed_chunks_done) simp
    then show ?thesis using False less.prems by simp
  next
    case True
    define R where "R = fixed_chunks (i + step) n step (k + 1)"
    define T where "T = ''Secci'' @ [CHR 0xF3] @ ''n '' @ str_nat (k + 1)"
    have u: "fixed_chunks i n step k = (T, [i..<min (i + step) n]) # R"
      unfolding R_def T_def by (rule fixed_chunks_step [OF less.prems(1) True])
    show ?thesis
    proof (cases "i + step \<le> n")
      case le: True
      have d: "n - (i + step) < n - i" using True less.prems(1) by linarith
      have "concat (map snd (fixed_chunks (i + step) n step (k + 1))) = [i + step..<n]
          \<and> list_all (\<lambda>c. snd c \<noteq> []) (fixed_chunks (i + step) n step (k + 1))"
        by (rule less.hyps [OF d less.prems(1) le])
      then have ih: "concat (map snd R) = [i + step..<n]" "list_all (\<lambda>c. snd c \<noteq> []) R"
        unfolding R_def by blast+
      have m: "min (i + step) n = i + step" using le by simp
      have j: "[i..<i + step] @ [i + step..<n] = [i..<n]"
        using le by (metis le_add1 le_Suc_ex upt_add_eq_append)
      have ne: "[i..<i + step] \<noteq> []" using less.prems(1) by simp
      have "concat (map snd ((T, [i..<i + step]) # R)) = [i..<n]" using ih(1) j by simp
      moreover have "list_all (\<lambda>c. snd c \<noteq> []) ((T, [i..<i + step]) # R)" using ih(2) ne by simp
      ultimately show ?thesis unfolding u m by blast
    next
      case False
      have "\<not> (0 < step \<and> i + step < n)" using False by simp
      then have r: "R = []" unfolding R_def by (rule fixed_chunks_done)
      have m: "min (i + step) n = n" using False by simp
      have "concat (map snd [(T, [i..<n])]) = [i..<n]" by simp
      moreover have "list_all (\<lambda>c. snd c \<noteq> []) [(T, [i..<n])]" using True by simp
      ultimately show ?thesis unfolding u m r by blast
    qed
  qed
qed

subsection \<open>Which strategy returns, and the cover of the pages\<close>

text \<open>
  The chapters of the outline cover the document exactly when the start pages of its
  entries of level 1 and 2 are in ascending order.
\<close>

lemma tier1_cover:
  assumes "sorted (map snd (outline_boundaries (toc a)))" and "tier1_chapters a \<noteq> []"
  shows "\<exists>cs'. add_front_matter (tier1_chapters a) = Inr cs'
      \<and> exact_cover (map snd cs') (length (pages a))"
proof -
  define bs where "bs = outline_boundaries (toc a)"
  have t: "tier1_chapters a = outline_chapters bs (length (pages a))"
    using assms(2) unfolding tier1_chapters_def bs_def by (simp split: if_splits)
  then have "bs \<noteq> []" using assms(2) by auto
  then have c: "concat (map snd (tier1_chapters a)) = [nat (max 0 (snd (hd bs)))..<length (pages a)]"
    unfolding t using assms(1) unfolding bs_def [symmetric] by (rule outline_chapters_concat)
  have n: "\<forall>c \<in> set (tier1_chapters a). snd c \<noteq> []"
    unfolding t using outline_chapters_nonempty by blast
  show ?thesis by (rule add_front_matter_cover [OF assms(2) n c])
qed

lemma detected_page_bound:
  assumes "pages_numbered ps" and "h \<in> set (detect_headings fmul ps body hmin)"
  shows "heading_page h < length ps"
  using detect_headings_pages [OF assms(2)] pages_numbered_bound [OF assms(1)] by auto


lemma tier2_cover:
  assumes "pages_numbered (pages a)" and "tier2_chapters fmul a th \<noteq> []"
  shows "\<exists>cs'. add_front_matter (tier2_chapters fmul a th) = Inr cs'
      \<and> exact_cover (map snd cs') (length (pages a))"
proof -
  define d where "d = detect_headings fmul (pages a) (body_font_size a) (fmul (body_font_size a) th)"
  define hs where "hs = sorted_headings d"
  have t: "tier2_chapters fmul a th = heading_chapters hs (length (pages a))" and l: "2 \<le> length d"
    using assms(2) unfolding tier2_chapters_def d_def hs_def by (simp_all add: Let_def split: if_splits)
  have dne: "d \<noteq> []" using l by auto
  have ne: "hs \<noteq> []" unfolding hs_def using sorted_headings_props [of d] dne by blast
  have sub: "set hs \<subseteq> set d" unfolding hs_def using sorted_headings_props [of d] by blast
  have "sorted_wrt (<) (map heading_page hs)"
    unfolding hs_def using sorted_headings_props [of d] by blast
  then have so: "sorted (map heading_page hs)" by (simp add: strict_sorted_iff)
  have b: "\<forall>h \<in> set hs. heading_page h \<le> length (pages a)"
  proof
    fix h assume "h \<in> set hs"
    then have "h \<in> set d" using sub by blast
    then have "heading_page h < length (pages a)"
      unfolding d_def using detected_page_bound [OF assms(1)] by blast
    then show "heading_page h \<le> length (pages a)" by simp
  qed
  have c: "concat (map snd (tier2_chapters fmul a th)) = [heading_page (hd hs)..<length (pages a)]"
    unfolding t by (rule heading_chapters_concat [OF ne so b])
  have n: "\<forall>c \<in> set (tier2_chapters fmul a th). snd c \<noteq> []"
    unfolding t using heading_chapters_nonempty by blast
  show ?thesis by (rule add_front_matter_cover [OF assms(2) n c])
qed

lemma tier3_cover:
  assumes "0 < cs"
  shows "exact_cover (map snd (fixed_chunks 0 n (nat cs) 0)) n"
proof -
  have "0 < nat cs" using assms by simp
  from fixed_chunks_cover [OF this, of 0 n 0]
  show ?thesis unfolding exact_cover_def by (simp add: list_all_iff)
qed


lemma structure_spans_cover:
  assumes "pages_numbered (pages a)" and "sorted (map snd (outline_boundaries (toc a)))"
    and "0 < get_chunk_size ps"
  shows "\<exists>t cs. structure_spans fmul a ps = Inr (t, cs) \<and> exact_cover (map snd cs) (length (pages a))"
proof (cases "tier1_chapters a \<noteq> []")
  case True
  then show ?thesis
    using tier1_cover [OF assms(2) True] by (auto simp: structure_spans_def Let_def)
next
  case False
  note f1 = this
  show ?thesis
  proof (cases "tier2_chapters fmul a (get_heading_threshold ps) \<noteq> []")
    case True
    then show ?thesis
      using f1 tier2_cover [OF assms(1) True] by (auto simp: structure_spans_def Let_def)
  next
    case False
    then show ?thesis
      using f1 assms(3) tier3_cover [OF assms(3), of "length (pages a)"]
      by (auto simp: structure_spans_def Let_def)
  qed
qed

text \<open>
  The exact cover, where the code has it: for numbered pages, an outline whose entries of
  level 1 and 2 are in ascending page order, and a positive chunk size, whichever
  strategy returns, the page lists of the chapters are not empty and, one after the
  other, are the pages \<open>0..<n\<close> in order.
\<close>

lemma structure_chapters_cover:
  assumes "pages_numbered (pages a)" and "sorted (map snd (outline_boundaries (toc a)))"
    and "0 < get_chunk_size ps"
  shows "\<exists>t chs. structure_chapters_tagged fmul a ocr_results ps = Inr (t, chs)
      \<and> structure_chapters fmul a ocr_results ps = Inr chs
      \<and> exact_cover (map chapter_pages chs) (length (pages a))"
proof -
  from structure_spans_cover [OF assms]
  obtain t cs where "structure_spans fmul a ps = Inr (t, cs)" "exact_cover (map snd cs) (length (pages a))"
    by blast
  then show ?thesis
    by (simp add: structure_chapters_def structure_chapters_tagged_def build_chapter_content_pages)
qed


lemma pages_numbered_1: "pages_numbered [plain_page 0 bs]"
  by (simp add: pages_numbered_def plain_page_def)



text \<open>
  Claim C1 at a document where it fails. The outline of a document of 3 pages has the
  entries A on page 1, B on page 3 and C on page 2, all of level 1. The outline strategy
  does not sort them: A runs to the start of B and gets the pages 0 and 1, B would run
  to the start of C and gets no page, C runs to the end and gets the pages 1 and 2.
  Page 1 is in two chapters.
\<close>

theorem unsorted_outline_overlaps:
  "map_sum id (map chapter_pages)
     (structure_chapters exact_mul
        (document [plain_page 0 [], plain_page 1 [], plain_page 2 []]
           [(1, ''A'', 1), (1, ''B'', 3), (1, ''C'', 2)])
        Map.empty initial_params)
   = Inr [[0, 1], [1, 2]]"
  by (simp add: structure_chapters_def structure_chapters_tagged_def structure_spans_def Let_def
      tier1_chapters_def outline_boundaries_def add_front_matter_def document_def plain_page_def
      initial_params_def get_heading_threshold_def get_chunk_size_def get_min_chapter_words_def
      build_chapter_content_pages map_sum.simps upt_rec)

end
